theory Spec2Isabelle
  imports Complex_Main
begin

section \<open>JavaScript values reaching the server\<close>

text \<open>
  \<^verbatim>\<open>server.js\<close> keeps the posted sensor readings in \<^verbatim>\<open>localDataStore.sensorData\<close>
  and serves them back. The handlers use a handful of built-ins of the language
  (\<^verbatim>\<open>Number\<close>, \<^verbatim>\<open>parseInt\<close>, \<^verbatim>\<open>slice\<close>, \<^verbatim>\<open>unshift\<close>, \<^verbatim>\<open>replace\<close>); they are
  modelled first, following ECMA-262.

  A JavaScript string is a \<^typ>\<open>string\<close> whose characters stand for code units
  below 256.
\<close>

subsection \<open>Numbers\<close>

text \<open>
  A Number is an IEEE 754 double: \<open>NaN\<close>, the two infinities, negative zero, or a
  finite value, written as the rational it denotes (\<open>Finite 0\<close> is \<open>+0\<close>).
\<close>

datatype jsnum = NaN | PosInfinity | NegInfinity | NegZero | Finite rat

definition pow2 :: "int \<Rightarrow> rat" where
  "pow2 e = (if 0 \<le> e then 2 ^ nat e else 1 / 2 ^ nat (- e))"

definition round_half_even :: "rat \<Rightarrow> int" where
  "round_half_even q =
     (let f = \<lfloor>q\<rfloor>; d = q - of_int f
      in if d < 1 / 2 then f else if 1 / 2 < d then f + 1 else if even f then f else f + 1)"

function bit_length :: "int \<Rightarrow> int" where
  "bit_length n = (if n \<le> 0 then 0 else 1 + bit_length (n div 2))"
  by pat_completeness auto
termination
  by (relation "measure nat") auto

definition floor_log2 :: "rat \<Rightarrow> int" where
  \<comment> \<open>for \<open>0 < q\<close>: the \<open>e\<close> with \<open>2 ^ e \<le> q < 2 ^ (e + 1)\<close>\<close>
  "floor_log2 q =
     (let k = bit_length (fst (quotient_of q)) - bit_length (snd (quotient_of q))
      in if pow2 k \<le> q then k else k - 1)"

definition round_mv :: "rat \<Rightarrow> jsnum" where
  \<comment> \<open>the double nearest to a mathematical value \<open>0 \<le> q\<close>, ties to even\<close>
  "round_mv q =
     (if q = 0 then Finite 0
      else let e = max (floor_log2 q) (- 1022);
               ulp = pow2 (e - 52);
               r = of_int (round_half_even (q / ulp)) * ulp
           in if pow2 1024 \<le> r then PosInfinity else Finite r)"

fun negate :: "jsnum \<Rightarrow> jsnum" where
  "negate NaN = NaN"
| "negate PosInfinity = NegInfinity"
| "negate NegInfinity = PosInfinity"
| "negate NegZero = Finite 0"
| "negate (Finite q) = (if q = 0 then NegZero else Finite (- q))"

subsection \<open>Digits and white space\<close>

definition is_white_space :: "char \<Rightarrow> bool" where
  \<comment> \<open>TAB, LF, VT, FF, CR, SP, NBSP\<close>
  "is_white_space c = ((of_char c :: int) \<in> {9, 10, 11, 12, 13, 32, 160})"

definition digit_value :: "char \<Rightarrow> int option" where
  "digit_value c =
     (let n = (of_char c :: int)
      in if 48 \<le> n \<and> n \<le> 57 then Some (n - 48)
         else if 97 \<le> n \<and> n \<le> 122 then Some (n - 87)
         else if 65 \<le> n \<and> n \<le> 90 then Some (n - 55)
         else None)"

definition is_radix_digit :: "int \<Rightarrow> char \<Rightarrow> bool" where
  "is_radix_digit R c = (case digit_value c of Some d \<Rightarrow> d < R | None \<Rightarrow> False)"

definition digits_value :: "int \<Rightarrow> string \<Rightarrow> int" where
  "digits_value R ds =
     foldl (\<lambda>acc c. acc * R + (case digit_value c of Some d \<Rightarrow> d | None \<Rightarrow> 0)) 0 ds"

subsection \<open>\<^verbatim>\<open>parseInt(string)\<close>\<close>

text \<open>
  \<^verbatim>\<open>parseInt\<close> with no radix: leading white space is skipped, a sign and a
  \<^verbatim>\<open>0x\<close> prefix are read, and the longest run of digits is the result; no digit
  gives \<^verbatim>\<open>NaN\<close>, here \<open>None\<close>. The result is kept as the integer it denotes: the
  only use the server makes of it is as the end index of \<^verbatim>\<open>slice\<close> after a
  truthiness test, and rounding an integer to a double (or to an infinity) changes
  neither its sign, nor whether it is zero, nor its order with respect to the
  length of an array.
\<close>

definition parseInt :: "string \<Rightarrow> int option" where
  "parseInt inputString =
     (let S = dropWhile is_white_space inputString;
          sign = (if S \<noteq> [] \<and> hd S = CHR ''-'' then - 1 else 1 :: int);
          S1 = (if S \<noteq> [] \<and> (hd S = CHR ''+'' \<or> hd S = CHR ''-'') then tl S else S);
          hex = (take 2 S1 = ''0x'' \<or> take 2 S1 = ''0X'');
          R = (if hex then 16 else 10 :: int);
          S2 = (if hex then drop 2 S1 else S1);
          Z = takeWhile (is_radix_digit R) S2
      in if Z = [] then None else Some (sign * digits_value R Z))"

subsection \<open>\<^verbatim>\<open>Number(string)\<close>\<close>

definition trim :: "string \<Rightarrow> string" where
  "trim s = rev (dropWhile is_white_space (rev (dropWhile is_white_space s)))"

definition exponent_part :: "string \<Rightarrow> int option" where
  \<comment> \<open>an optional \<^verbatim>\<open>e\<close> or \<^verbatim>\<open>E\<close>, an optional sign, digits; nothing may follow\<close>
  "exponent_part s =
     (if s = [] then Some 0
      else if hd s = CHR ''e'' \<or> hd s = CHR ''E'' then
        (let t = tl s;
             neg = (t \<noteq> [] \<and> hd t = CHR ''-'');
             ds = (if t \<noteq> [] \<and> (hd t = CHR ''+'' \<or> hd t = CHR ''-'') then tl t else t)
         in if ds \<noteq> [] \<and> list_all (is_radix_digit 10) ds
            then Some ((if neg then - 1 else 1) * digits_value 10 ds)
            else None)
      else None)"

definition pow10 :: "int \<Rightarrow> rat" where
  "pow10 e = (if 0 \<le> e then 10 ^ nat e else 1 / 10 ^ nat (- e))"

definition unsigned_decimal_literal :: "string \<Rightarrow> jsnum option" where
  \<comment> \<open>\<^verbatim>\<open>Infinity\<close>, \<^verbatim>\<open>D+ . D* Exp?\<close>, \<^verbatim>\<open>. D+ Exp?\<close> or \<^verbatim>\<open>D+ Exp?\<close>\<close>
  "unsigned_decimal_literal s =
     (if s = ''Infinity'' then Some PosInfinity
      else let ip = takeWhile (is_radix_digit 10) s;
               r1 = dropWhile (is_radix_digit 10) s;
               dot = (r1 \<noteq> [] \<and> hd r1 = CHR ''.'');
               fp = (if dot then takeWhile (is_radix_digit 10) (tl r1) else []);
               r2 = (if dot then dropWhile (is_radix_digit 10) (tl r1) else r1)
           in if ip = [] \<and> fp = [] then None
              else (case exponent_part r2 of
                      None \<Rightarrow> None
                    | Some e \<Rightarrow>
                        Some (round_mv ((of_int (digits_value 10 ip)
                                         + of_int (digits_value 10 fp) / 10 ^ length fp)
                                        * pow10 e))))"

definition non_decimal_integer_literal :: "string \<Rightarrow> jsnum option" where
  \<comment> \<open>\<^verbatim>\<open>0b\<close>, \<^verbatim>\<open>0o\<close> or \<^verbatim>\<open>0x\<close> (either case) and at least one digit of that radix\<close>
  "non_decimal_integer_literal s =
     (let p = take 2 s; ds = drop 2 s;
          R = (if p = ''0b'' \<or> p = ''0B'' then 2
               else if p = ''0o'' \<or> p = ''0O'' then 8
               else if p = ''0x'' \<or> p = ''0X'' then 16
               else (0 :: int))
      in if R \<noteq> 0 \<and> ds \<noteq> [] \<and> list_all (is_radix_digit R) ds
         then Some (round_mv (of_int (digits_value R ds)))
         else None)"

definition numeric_literal :: "string \<Rightarrow> jsnum option" where
  "numeric_literal s =
     (case non_decimal_integer_literal s of
        Some v \<Rightarrow> Some v
      | None \<Rightarrow>
          if s \<noteq> [] \<and> hd s = CHR ''+'' then unsigned_decimal_literal (tl s)
          else if s \<noteq> [] \<and> hd s = CHR ''-'' then map_option negate (unsigned_decimal_literal (tl s))
          else unsigned_decimal_literal s)"

definition StringToNumber :: "string \<Rightarrow> jsnum" where
  "StringToNumber s =
     (let t = trim s
      in if t = [] then Finite 0
         else (case numeric_literal t of None \<Rightarrow> NaN | Some v \<Rightarrow> v))"

subsection \<open>The grammar of numeric strings\<close>

text \<open>
  ECMA-262 says which strings \<^verbatim>\<open>Number\<close> reads as a number by a grammar,
  \<^verbatim>\<open>StringNumericLiteral\<close>; every other string converts to \<^verbatim>\<open>NaN\<close>. The
  productions are written down here as the standard has them, one predicate for
  each nonterminal, independently of the functions above, which are compared with
  them below.
\<close>

definition StrWhiteSpace :: "string \<Rightarrow> bool" where
  "StrWhiteSpace w =
     (set w \<subseteq> {CHR 0x09, CHR 0x0B, CHR 0x0C, CHR 0x20, CHR 0xA0, CHR 0x0A, CHR 0x0D})"

definition DecimalDigits :: "string \<Rightarrow> bool" where
  "DecimalDigits ds = (ds \<noteq> [] \<and> set ds \<subseteq> set ''0123456789'')"

definition ExponentPart :: "string \<Rightarrow> bool" where
  "ExponentPart ex =
     (\<exists>ind sgn ds. ex = ind @ sgn @ ds \<and> ind \<in> {''e'', ''E''} \<and> sgn \<in> {[], ''+'', ''-''}
        \<and> DecimalDigits ds)"

definition StrUnsignedDecimalLiteral :: "string \<Rightarrow> bool" where
  "StrUnsignedDecimalLiteral u =
     (u = ''Infinity''
      \<or> (\<exists>ip fp ex. u = ip @ ''.'' @ fp @ ex \<and> DecimalDigits ip
            \<and> (fp = [] \<or> DecimalDigits fp) \<and> (ex = [] \<or> ExponentPart ex))
      \<or> (\<exists>fp ex. u = ''.'' @ fp @ ex \<and> DecimalDigits fp \<and> (ex = [] \<or> ExponentPart ex))
      \<or> (\<exists>ip ex. u = ip @ ex \<and> DecimalDigits ip \<and> (ex = [] \<or> ExponentPart ex)))"

definition StrDecimalLiteral :: "string \<Rightarrow> bool" where
  "StrDecimalLiteral d =
     (StrUnsignedDecimalLiteral d
      \<or> (\<exists>u. d = ''+'' @ u \<and> StrUnsignedDecimalLiteral u)
      \<or> (\<exists>u. d = ''-'' @ u \<and> StrUnsignedDecimalLiteral u))"

definition NonDecimalIntegerLiteral :: "string \<Rightarrow> bool" where
  "NonDecimalIntegerLiteral n =
     (\<exists>p ds. n = p @ ds \<and> ds \<noteq> []
        \<and> (p \<in> {''0b'', ''0B''} \<and> set ds \<subseteq> set ''01''
           \<or> p \<in> {''0o'', ''0O''} \<and> set ds \<subseteq> set ''01234567''
           \<or> p \<in> {''0x'', ''0X''} \<and> set ds \<subseteq> set ''0123456789abcdefABCDEF''))"

definition StrNumericLiteral :: "string \<Rightarrow> bool" where
  "StrNumericLiteral l = (StrDecimalLiteral l \<or> NonDecimalIntegerLiteral l)"

definition StringNumericLiteral :: "string \<Rightarrow> bool" where
  "StringNumericLiteral s =
     (\<exists>w1 l w2. s = w1 @ l @ w2 \<and> StrWhiteSpace w1 \<and> StrWhiteSpace w2
        \<and> (l = [] \<or> StrNumericLiteral l))"

subsection \<open>Values of a JSON body and \<^verbatim>\<open>Number(value)\<close>\<close>

text \<open>
  \<^verbatim>\<open>bodyParser.json()\<close> hands the handler the parsed JSON body, an object (the
  empty object when the request carries no JSON); a property the body does not
  have reads as \<^verbatim>\<open>undefined\<close>. An object is the list of its own properties, each
  key once.
\<close>

datatype jsval =
    JUndefined
  | JNull
  | JBool bool
  | JNumber jsnum
  | JString string
  | JArray "jsval list"
  | JObject "(string \<times> jsval) list"

datatype js_error = TypeError

text \<open>
  Converting an object to a primitive calls its \<^verbatim>\<open>valueOf\<close> and \<^verbatim>\<open>toString\<close>. For
  a parsed JSON object the inherited \<^verbatim>\<open>valueOf\<close> returns the object itself and the
  inherited \<^verbatim>\<open>toString\<close> returns \<^verbatim>\<open>[object Object]\<close>; an own property of that name
  is never callable and hides the inherited method, so an object with an own
  \<^verbatim>\<open>toString\<close> property has no primitive value and the conversion throws. An array
  joins the strings of its elements with commas, \<^verbatim>\<open>undefined\<close> and \<^verbatim>\<open>null\<close> giving
  the empty string.
\<close>

fun throws_in_ToString :: "jsval \<Rightarrow> bool" where
  "throws_in_ToString (JObject kvs) = (''toString'' \<in> fst ` set kvs)"
| "throws_in_ToString (JArray xs) = (\<exists>x \<in> set xs. throws_in_ToString x)"
| "throws_in_ToString _ = False"

text \<open>
  \<^verbatim>\<open>Number(v)\<close>. The string of an array is not built here, only read back: the
  empty array gives the empty string, which is \<open>+0\<close>; a one-element array gives the
  string of its element, and the digits of a number read back as that number
  (\<open>-0\<close> prints as \<^verbatim>\<open>0\<close>); a longer array gives a string with a comma, which is no
  numeric literal.
\<close>

fun ToNumber :: "jsval \<Rightarrow> js_error + jsnum" where
  "ToNumber JUndefined = Inr NaN"
| "ToNumber JNull = Inr (Finite 0)"
| "ToNumber (JBool b) = Inr (Finite (if b then 1 else 0))"
| "ToNumber (JNumber n) = Inr n"
| "ToNumber (JString s) = Inr (StringToNumber s)"
| "ToNumber (JObject kvs) =
     (if throws_in_ToString (JObject kvs) then Inl TypeError else Inr NaN)"
| "ToNumber (JArray []) = Inr (Finite 0)"
| "ToNumber (JArray [x]) =
     (if throws_in_ToString x then Inl TypeError
      else (case x of
              JUndefined \<Rightarrow> Inr (Finite 0)
            | JNull \<Rightarrow> Inr (Finite 0)
            | JBool b \<Rightarrow> Inr NaN
            | JNumber n \<Rightarrow> Inr (if n = NegZero then Finite 0 else n)
            | JString s \<Rightarrow> Inr (StringToNumber s)
            | JArray ys \<Rightarrow> ToNumber (JArray ys)
            | JObject kvs \<Rightarrow> Inr NaN))"
| "ToNumber (JArray (x # y # zs)) =
     (if throws_in_ToString (JArray (x # y # zs)) then Inl TypeError else Inr NaN)"

definition get_property :: "(string \<times> jsval) list \<Rightarrow> string \<Rightarrow> jsval" where
  "get_property obj k = (case map_of obj k of None \<Rightarrow> JUndefined | Some v \<Rightarrow> v)"

subsection \<open>The clock\<close>

text \<open>
  A request that stores a reading reads the wall clock twice: \<^verbatim>\<open>getISTDateTime\<close>
  formats \<^verbatim>\<open>new Date()\<close> through \<^verbatim>\<open>toLocaleString\<close>, and the id is \<^verbatim>\<open>Date.now()\<close>.
  Both readings are inputs of the handler.
\<close>

record clock =
  toLocaleString :: string
  now :: int

definition match_date :: "string \<Rightarrow> (string \<times> string \<times> string \<times> string) option" where
  \<comment> \<open>\<^verbatim>\<open>(\d+)\/(\d+)\/(\d+)\<close> at the start of \<open>s\<close>: the three groups and what follows\<close>
  "match_date s =
     (let g1 = takeWhile (is_radix_digit 10) s; r1 = dropWhile (is_radix_digit 10) s
      in if g1 = [] \<or> r1 = [] \<or> hd r1 \<noteq> CHR ''/'' then None
         else let g2 = takeWhile (is_radix_digit 10) (tl r1);
                  r2 = dropWhile (is_radix_digit 10) (tl r1)
              in if g2 = [] \<or> r2 = [] \<or> hd r2 \<noteq> CHR ''/'' then None
                 else let g3 = takeWhile (is_radix_digit 10) (tl r2);
                          r3 = dropWhile (is_radix_digit 10) (tl r2)
                      in if g3 = [] then None else Some (g1, g2, g3, r3))"

fun replace_date :: "string \<Rightarrow> string" where
  \<comment> \<open>\<^verbatim>\<open>.replace(/(\d+)\/(\d+)\/(\d+)/, '$3-$1-$2')\<close>: the leftmost match only\<close>
  "replace_date [] = []"
| "replace_date (c # cs) =
     (case match_date (c # cs) of
        Some (g1, g2, g3, rest) \<Rightarrow> g3 @ ''-'' @ g1 @ ''-'' @ g2 @ rest
      | None \<Rightarrow> c # replace_date cs)"

definition getISTDateTime :: "clock \<Rightarrow> string" where
  "getISTDateTime clk = replace_date (toLocaleString clk)"

function decimal_digits :: "int \<Rightarrow> string" where
  "decimal_digits n =
     (if n < 10 then [char_of (48 + n)]
      else decimal_digits (n div 10) @ [char_of (48 + n mod 10)])"
  by pat_completeness auto
termination
  by (relation "measure nat") auto

definition toString_int :: "int \<Rightarrow> string" where
  \<comment> \<open>\<^verbatim>\<open>Date.now().toString()\<close>: a time value is an integer of at most 16 digits,
      printed in full\<close>
  "toString_int n = (if n < 0 then CHR ''-'' # decimal_digits (- n) else decimal_digits n)"

section \<open>The store\<close>

record reading =
  strain :: jsnum
  vibration :: jsnum
  displacement :: jsnum
  acceleration :: jsnum
  timestamp :: string
  id_str :: string

record localDataStore =
  sensorData :: "reading list"

definition empty_store :: localDataStore where
  "empty_store = \<lparr>sensorData = []\<rparr>"

definition slice_from_0 :: "'a list \<Rightarrow> int \<Rightarrow> 'a list" where
  \<comment> \<open>\<^verbatim>\<open>xs.slice(0, end)\<close>: a negative end counts from the end of the array\<close>
  "slice_from_0 xs e =
     (let len = int (length xs);
          final = (if e < 0 then max (len + e) 0 else min e len)
      in take (nat final) xs)"

section \<open>Responses and the spreadsheet\<close>

text \<open>
  A response is what the handler passes to \<^verbatim>\<open>res.status(n).json(...)\<close> or to
  \<^verbatim>\<open>res.download\<close>. The spreadsheet is the worksheet as ExcelJS holds it when the
  file is written: assigning \<^verbatim>\<open>worksheet.columns\<close> writes the headers into row 1,
  \<^verbatim>\<open>addRow(object)\<close> appends a row whose cells are the properties of the object
  under the keys of the columns, and \<^verbatim>\<open>getRow(1).font\<close> sets the font of row 1.
\<close>

record column =
  header :: string
  key :: string
  width :: nat

datatype cell = CellEmpty | CellString string | CellNumber jsnum

record row =
  cells :: "cell list"
  bold :: bool

record worksheet =
  sheet_name :: string
  columns :: "column list"
  rows :: "row list"

datatype json_body =
    Message bool string
  | Stored bool string reading
  | DataList bool "reading list"
  | DataItem bool reading

datatype response =
    Json nat json_body
  | Download string worksheet

definition addWorksheet :: "string \<Rightarrow> worksheet" where
  "addWorksheet n = \<lparr>sheet_name = n, columns = [], rows = []\<rparr>"

definition set_columns :: "column list \<Rightarrow> worksheet \<Rightarrow> worksheet" where
  "set_columns cols ws =
     ws\<lparr>columns := cols, rows := [\<lparr>cells = map (\<lambda>c. CellString (header c)) cols, bold = False\<rparr>]\<rparr>"

definition reading_property :: "reading \<Rightarrow> string \<Rightarrow> cell" where
  "reading_property d k =
     (if k = ''strain'' then CellNumber (strain d)
      else if k = ''vibration'' then CellNumber (vibration d)
      else if k = ''displacement'' then CellNumber (displacement d)
      else if k = ''acceleration'' then CellNumber (acceleration d)
      else if k = ''timestamp'' then CellString (timestamp d)
      else if k = ''id'' then CellString (id_str d)
      else CellEmpty)"

definition addRow :: "reading \<Rightarrow> worksheet \<Rightarrow> worksheet" where
  "addRow d ws =
     ws\<lparr>rows := rows ws @ [\<lparr>cells = map (\<lambda>c. reading_property d (key c)) (columns ws), bold = False\<rparr>]\<rparr>"

definition set_row1_bold :: "worksheet \<Rightarrow> worksheet" where
  \<comment> \<open>\<^verbatim>\<open>getRow(1)\<close> makes the row when the sheet has none\<close>
  "set_row1_bold ws =
     ws\<lparr>rows := (case rows ws of
                   [] \<Rightarrow> [\<lparr>cells = [], bold = True\<rparr>]
                 | r # rs \<Rightarrow> r\<lparr>bold := True\<rparr> # rs)\<rparr>"

definition sensor_columns :: "column list" where
  "sensor_columns =
     [\<lparr>header = ''Timestamp'', key = ''timestamp'', width = 25\<rparr>,
      \<lparr>header = ''Strain'', key = ''strain'', width = 15\<rparr>,
      \<lparr>header = ''Vibration'', key = ''vibration'', width = 15\<rparr>,
      \<lparr>header = ''Displacement'', key = ''displacement'', width = 15\<rparr>,
      \<lparr>header = ''Acceleration'', key = ''acceleration'', width = 15\<rparr>,
      \<lparr>header = ''ID'', key = ''id'', width = 25\<rparr>]"

section \<open>The handlers\<close>

subsection \<open>\<^verbatim>\<open>POST /api/sensor-data\<close>\<close>

text \<open>
  The four conversions stand before the \<^verbatim>\<open>try\<close> block: when one of them throws,
  the handler ends with that error, sends nothing and has not touched the store.
  Nothing inside the \<^verbatim>\<open>try\<close> block can throw. The handler is declared \<^verbatim>\<open>async\<close>
  but awaits nothing, so it runs from its first line to its last before the next
  request is looked at.
\<close>

definition post_sensor_data ::
  "clock \<Rightarrow> (string \<times> jsval) list \<Rightarrow> localDataStore \<Rightarrow> (js_error + response) \<times> localDataStore" where
  "post_sensor_data clk body st =
     (let strain_v = get_property body ''strain'';
          vibration_v = get_property body ''vibration'';
          displacement_v = get_property body ''displacement'';
          acceleration_v = get_property body ''acceleration''
      in if strain_v = JUndefined \<or> strain_v = JNull \<or>
            vibration_v = JUndefined \<or> vibration_v = JNull \<or>
            displacement_v = JUndefined \<or> displacement_v = JNull \<or>
            acceleration_v = JUndefined \<or> acceleration_v = JNull
         then (Inr (Json 400 (Message False
                 ''Missing required fields: strain, vibration, displacement, or acceleration'')), st)
         else
           (case ToNumber strain_v of Inl e \<Rightarrow> (Inl e, st) | Inr s \<Rightarrow>
           (case ToNumber vibration_v of Inl e \<Rightarrow> (Inl e, st) | Inr v \<Rightarrow>
           (case ToNumber displacement_v of Inl e \<Rightarrow> (Inl e, st) | Inr d \<Rightarrow>
           (case ToNumber acceleration_v of Inl e \<Rightarrow> (Inl e, st) | Inr a \<Rightarrow>
             (let newData = \<lparr>strain = s, vibration = v, displacement = d, acceleration = a,
                             timestamp = getISTDateTime clk, id_str = toString_int (now clk)\<rparr>;
                  unshifted = newData # sensorData st;
                  kept = (if length unshifted > 50 then slice_from_0 unshifted 50 else unshifted)
              in (Inr (Json 200 (Stored True ''Data stored successfully in memory'' newData)),
                  st\<lparr>sensorData := kept\<rparr>)))))))"

subsection \<open>\<^verbatim>\<open>GET /api/sensor-data\<close>\<close>

text \<open>
  \<^verbatim>\<open>req.query.limit\<close> is absent, a string, or (a repeated or bracketed parameter)
  an array or an object; \<^verbatim>\<open>parseInt\<close> takes its string. The query parser lets a
  bracketed key name a property of \<^verbatim>\<open>Object.prototype\<close>, so \<^verbatim>\<open>limit[toString]=1\<close>
  gives an object with an own \<^verbatim>\<open>toString\<close> property, which has no string: the
  conversion throws. \<^verbatim>\<open>parseInt\<close> stands before the \<^verbatim>\<open>try\<close> block, so the handler
  then throws, has not read the store, and the reply (status 500) is left to the
  framework.
\<close>

datatype qval =
    QUndefined
  | QString string
  | QArray "qval list"
  | QObject "(string \<times> qval) list"

fun join_comma :: "string list \<Rightarrow> string" where
  "join_comma [] = []"
| "join_comma [s] = s"
| "join_comma (s # t # ts) = s @ '','' @ join_comma (t # ts)"

fun throws_in_ToString_q :: "qval \<Rightarrow> bool" where
  "throws_in_ToString_q (QObject kvs) = (''toString'' \<in> fst ` set kvs)"
| "throws_in_ToString_q (QArray xs) = (\<exists>x \<in> set xs. throws_in_ToString_q x)"
| "throws_in_ToString_q _ = False"

fun string_of_q :: "qval \<Rightarrow> string" where
  \<comment> \<open>the string of a value whose conversion does not throw\<close>
  "string_of_q QUndefined = ''undefined''"
| "string_of_q (QString s) = s"
| "string_of_q (QObject kvs) = ''[object Object]''"
| "string_of_q (QArray xs) =
     join_comma (map (\<lambda>x. if x = QUndefined then [] else string_of_q x) xs)"

definition ToString_q :: "qval \<Rightarrow> js_error + string" where
  "ToString_q q = (if throws_in_ToString_q q then Inl TypeError else Inr (string_of_q q))"

definition or_default :: "int option \<Rightarrow> int \<Rightarrow> int" where
  \<comment> \<open>\<^verbatim>\<open>x || d\<close>: \<^verbatim>\<open>NaN\<close> and zero are falsy\<close>
  "or_default x d = (case x of None \<Rightarrow> d | Some n \<Rightarrow> if n = 0 then d else n)"

definition get_sensor_data ::
  "qval \<Rightarrow> localDataStore \<Rightarrow> (js_error + response) \<times> localDataStore" where
  "get_sensor_data q st =
     (case ToString_q q of
        Inl e \<Rightarrow> (Inl e, st)
      | Inr s \<Rightarrow>
          (let limit = or_default (parseInt s) 10;
               data = slice_from_0 (sensorData st) limit
           in (Inr (Json 200 (DataList True data)), st)))"

subsection \<open>\<^verbatim>\<open>GET /api/sensor-data/latest\<close>\<close>

definition get_latest :: "localDataStore \<Rightarrow> response \<times> localDataStore" where
  "get_latest st =
     (case sensorData st of
        d # ds \<Rightarrow> (Json 200 (DataItem True d), st)
      | [] \<Rightarrow> (Json 404 (Message False ''No data available''), st))"

subsection \<open>\<^verbatim>\<open>GET /api/sensor-data/download\<close>\<close>

text \<open>
  Making the directory and writing the file can fail, and so can sending the file;
  whether they do is an input. The rows are added before the handler first
  awaits, so the worksheet holds the store as it was when the request arrived.
\<close>

record download_io =
  fs_ok :: bool
  send_ok :: bool

definition build_worksheet :: "localDataStore \<Rightarrow> worksheet" where
  "build_worksheet st =
     set_row1_bold
       (foldl (\<lambda>ws d. addRow d ws)
          (set_columns sensor_columns (addWorksheet ''Sensor Data''))
          (sensorData st))"

definition get_download :: "download_io \<Rightarrow> localDataStore \<Rightarrow> response \<times> localDataStore" where
  "get_download io st =
     (if \<not> fs_ok io then (Json 500 (Message False ''Error generating Excel file''), st)
      else let worksheet = build_worksheet st
           in if send_ok io then (Download ''sensor_data.xlsx'' worksheet, st)
              else (Json 500 (Message False ''Error downloading file''), st))"

subsection \<open>Requests in sequence\<close>

datatype request =
    PostSensorData clock "(string \<times> jsval) list"
  | GetSensorData qval
  | GetLatest
  | GetDownload download_io

fun handle :: "request \<Rightarrow> localDataStore \<Rightarrow> (js_error + response) \<times> localDataStore" where
  "handle (PostSensorData clk body) st = post_sensor_data clk body st"
| "handle (GetSensorData q) st = get_sensor_data q st"
| "handle GetLatest st = (Inr (fst (get_latest st)), snd (get_latest st))"
| "handle (GetDownload io) st = (Inr (fst (get_download io st)), snd (get_download io st))"

fun run :: "request list \<Rightarrow> localDataStore \<Rightarrow> (js_error + response) list \<times> localDataStore" where
  "run [] st = ([], st)"
| "run (r # rs) st =
     (let (out, st1) = handle r st; (outs, st2) = run rs st1 in (out # outs, st2))"

subsection \<open>Sample requests\<close>

definition sample_body :: "(string \<times> jsval) list" where
  "sample_body =
     [(''strain'', JNumber (Finite 10)), (''vibration'', JNumber (Finite 0)),
      (''displacement'', JNumber (Finite 0)), (''acceleration'', JNumber (Finite 0))]"

definition sample_clock :: "nat \<Rightarrow> clock" where
  "sample_clock i = \<lparr>toLocaleString = ''11/02/2026, 14:05:09'', now = 1793608509000 + int i\<rparr>"

definition sample_reading :: "nat \<Rightarrow> reading" where
  "sample_reading i =
     \<lparr>strain = Finite 10, vibration = Finite 0, displacement = Finite 0, acceleration = Finite 0,
      timestamp = ''2026-11-02, 14:05:09'', id_str = toString_int (1793608509000 + int i)\<rparr>"

definition sample_body_missing :: "(string \<times> jsval) list" where
  "sample_body_missing =
     [(''strain'', JNumber (Finite 10)), (''vibration'', JNumber (Finite 5)),
      (''acceleration'', JNumber (Finite 1))]"

definition sample_body_zero :: "(string \<times> jsval) list" where
  "sample_body_zero =
     [(''strain'', JNumber (Finite 0)), (''vibration'', JNumber (Finite 0)),
      (''displacement'', JNumber (Finite 0)), (''acceleration'', JNumber (Finite 0))]"

definition sample_body_text :: "(string \<times> jsval) list" where
  "sample_body_text =
     [(''strain'', JString ''abc''), (''vibration'', JString ''12.5''),
      (''displacement'', JBool True), (''acceleration'', JNumber (Finite 0))]"

definition sample_body_object :: "(string \<times> jsval) list" where
  "sample_body_object =
     [(''strain'', JObject [(''toString'', JNull)]), (''vibration'', JNumber (Finite 0)),
      (''displacement'', JNumber (Finite 0)), (''acceleration'', JNumber (Finite 0))]"

definition sample_reading_text :: reading where
  "sample_reading_text =
     \<lparr>strain = NaN, vibration = Finite (25 / 2), displacement = Finite 1, acceleration = Finite 0,
      timestamp = ''2026-11-02, 14:05:09'', id_str = toString_int 1793608509000\<rparr>"

section \<open>Properties\<close>

subsection \<open>Auxiliary facts\<close>

declare decimal_digits.simps [simp del]
declare bit_length.simps [simp del]

lemma slice_from_0_take: "0 \<le> e \<Longrightarrow> slice_from_0 xs e = take (nat e) xs"
  by (simp add: slice_from_0_def Let_def min_def)

lemma take_append_take: "take n (ys @ take n zs) = take n (ys @ zs)"
  by (simp add: min_def)

lemma post_sensor_data_stored:
  assumes "post_sensor_data clk body st = (Inr (Json 200 (Stored b m r)), st')"
  shows "st' = st\<lparr>sensorData := take 50 (r # sensorData st)\<rparr>"
  using assms
  by (auto simp add: post_sensor_data_def Let_def slice_from_0_take
           split: if_splits sum.splits)

lemma post_sensor_data_length:
  "length (sensorData (snd (post_sensor_data clk body st))) \<le> max 50 (length (sensorData st))"
  by (auto simp add: post_sensor_data_def Let_def slice_from_0_take
           split: if_splits sum.splits)

lemma get_sensor_data_snd: "snd (get_sensor_data q st) = st"
  by (simp add: get_sensor_data_def Let_def split: sum.splits)

lemma get_latest_snd: "snd (get_latest st) = st"
  by (simp add: get_latest_def split: list.splits)

lemma get_download_snd: "snd (get_download io st) = st"
  by (simp add: get_download_def Let_def)

lemma run_length: "length (fst (run reqs st)) = length reqs"
proof (induction reqs arbitrary: st)
  case Nil
  then show ?case by simp
next
  case (Cons r reqs)
  obtain out st1 where h: "handle r st = (out, st1)" by (cases "handle r st")
  show ?case using Cons.IH [of st1] h by (auto split: prod.splits)
qed

lemma sample_getISTDateTime: "getISTDateTime (sample_clock i) = ''2026-11-02, 14:05:09''"
  by (simp add: getISTDateTime_def sample_clock_def match_date_def is_radix_digit_def
        digit_value_def)

lemma sample_now: "now (sample_clock i) = 1793608509000 + int i"
  by (simp add: sample_clock_def)

lemma sample_post:
  "post_sensor_data (sample_clock i) sample_body st =
     (Inr (Json 200 (Stored True ''Data stored successfully in memory'' (sample_reading i))),
      st\<lparr>sensorData := take 50 (sample_reading i # sensorData st)\<rparr>)"
  by (simp add: post_sensor_data_def sample_body_def get_property_def sample_getISTDateTime
        sample_reading_def Let_def slice_from_0_def sample_now)

subsection \<open>The newest fifty readings\<close>

lemma run_posts_stored:
  assumes "run (map (\<lambda>(clk, body). PostSensorData clk body) posts) st = (outs, st')"
      and "outs = map (\<lambda>r. Inr (Json 200 (Stored True ''Data stored successfully in memory'' r)))
                    readings"
      and "length (sensorData st) \<le> 50"
  shows "sensorData st' = take 50 (rev readings @ sensorData st)"
  using assms
proof (induction posts arbitrary: st outs readings)
  case Nil
  then show ?case by simp
next
  case (Cons p posts)
  obtain clk body where p: "p = (clk, body)" by (cases p)
  obtain out st1 where h: "post_sensor_data clk body st = (out, st1)"
    by (cases "post_sensor_data clk body st")
  obtain outs1 where r: "run (map (\<lambda>(clk, body). PostSensorData clk body) posts) st1 = (outs1, st')"
    and o: "outs = out # outs1"
    using Cons.prems(1) p h by (auto split: prod.splits)
  from o Cons.prems(2) obtain d ds where rd: "readings = d # ds"
    and out: "out = Inr (Json 200 (Stored True ''Data stored successfully in memory'' d))"
    and outs1: "outs1 = map (\<lambda>r. Inr (Json 200 (Stored True ''Data stored successfully in memory'' r))) ds"
    by (cases readings) auto
  have st1: "sensorData st1 = take 50 (d # sensorData st)"
    using post_sensor_data_stored [OF h [unfolded out]] by simp
  have "sensorData st' = take 50 (rev ds @ sensorData st1)"
    using Cons.IH [OF r outs1] st1 by simp
  also have "\<dots> = take 50 (rev ds @ d # sensorData st)"
    unfolding st1 by (rule take_append_take)
  finally show ?case by (simp add: rd)
qed

lemma post_evicts_oldest:
  assumes "post_sensor_data clk body st = (Inr (Json 200 (Stored b m r)), st')"
      and "length (sensorData st) = 50"
  shows "sensorData st' = r # butlast (sensorData st)"
  using post_sensor_data_stored [OF assms(1)] assms(2)
  by (simp add: butlast_conv_take)

text \<open>
  C1. Take any sequence of posts to an empty store, each answered with status 200
  and the reading it stored. Afterwards the store holds the last fifty of these
  readings, newest first, which are \<open>min N 50\<close> readings; after 51 posts it holds
  all of them but the first one posted.
\<close>

theorem newest_fifty_after_posts:
  assumes "run (map (\<lambda>(clk, body). PostSensorData clk body) posts) empty_store = (outs, st)"
      and "outs = map (\<lambda>r. Inr (Json 200 (Stored True ''Data stored successfully in memory'' r)))
                    readings"
  shows "sensorData st = take 50 (rev readings)
       \<and> length (sensorData st) = min (length posts) 50
       \<and> (length posts = 51 \<longrightarrow> sensorData st = rev (tl readings))"
proof -
  have a: "sensorData st = take 50 (rev readings)"
    using run_posts_stored [OF assms] by (simp add: empty_store_def)
  have "length outs = length posts"
    using run_length [of "map (\<lambda>(clk, body). PostSensorData clk body) posts" empty_store] assms(1)
    by simp
  then have l: "length readings = length posts" using assms(2) by simp
  have b: "length (sensorData st) = min (length posts) 50"
    using a l by simp
  have c: "sensorData st = rev (tl readings)" if "length posts = 51"
  proof -
    have "length readings = 51" using l that by simp
    then have "take 50 (rev readings) = rev (drop 1 readings)"
      by (simp add: take_rev)
    then show ?thesis using a by (simp add: drop_Suc)
  qed
  show ?thesis using a b c by blast
qed

lemma sample_run_51:
  "run (map (\<lambda>(clk, body). PostSensorData clk body)
          (map (\<lambda>i. (sample_clock i, sample_body)) [0..<51])) empty_store
   = (map (\<lambda>r. Inr (Json 200 (Stored True ''Data stored successfully in memory'' r)))
        (map sample_reading [0..<51]),
      \<lparr>sensorData = rev (map sample_reading [1..<51])\<rparr>)"
  by (simp add: sample_post upt_rec empty_store_def)

theorem newest_fifty_after_posts_witness:
  "run (map (\<lambda>(clk, body). PostSensorData clk body)
          (map (\<lambda>i. (sample_clock i, sample_body)) [0..<51])) empty_store
   = (map (\<lambda>r. Inr (Json 200 (Stored True ''Data stored successfully in memory'' r)))
        (map sample_reading [0..<51]),
      \<lparr>sensorData = rev (map sample_reading [1..<51])\<rparr>)
   \<and> sensorData \<lparr>sensorData = rev (map sample_reading [1..<51])\<rparr>
       = take 50 (rev (map sample_reading [0..<51]))
   \<and> length (sensorData \<lparr>sensorData = rev (map sample_reading [1..<51])\<rparr>) = 50
   \<and> sensorData \<lparr>sensorData = rev (map sample_reading [1..<51])\<rparr>
       = rev (tl (map sample_reading [0..<51]))"
proof -
  note h = newest_fifty_after_posts [OF sample_run_51 refl]
  have l: "length (map (\<lambda>i. (sample_clock i, sample_body)) [0..<51]) = 51"
    by simp
  from h l have "sensorData \<lparr>sensorData = rev (map sample_reading [1..<51])\<rparr>
                   = rev (tl (map sample_reading [0..<51]))"
    by blast
  moreover from h have "sensorData \<lparr>sensorData = rev (map sample_reading [1..<51])\<rparr>
                          = take 50 (rev (map sample_reading [0..<51]))"
    by blast
  moreover have "length (sensorData \<lparr>sensorData = rev (map sample_reading [1..<51])\<rparr>) = 50"
    by simp
  ultimately show ?thesis using sample_run_51 by blast
qed

subsection \<open>The bound on the store\<close>

lemma handle_length:
  "length (sensorData st) \<le> 50 \<Longrightarrow> length (sensorData (snd (handle req st))) \<le> 50"
proof (cases req)
  case (PostSensorData clk body)
  assume "length (sensorData st) \<le> 50"
  then show ?thesis
    using post_sensor_data_length [of clk body st] PostSensorData by simp
next
  case (GetSensorData q)
  assume "length (sensorData st) \<le> 50"
  then show ?thesis using GetSensorData by (simp add: get_sensor_data_snd)
next
  case GetLatest
  assume "length (sensorData st) \<le> 50"
  then show ?thesis using GetLatest by (simp add: get_latest_snd)
next
  case (GetDownload io)
  assume "length (sensorData st) \<le> 50"
  then show ?thesis using GetDownload by (simp add: get_download_snd)
qed

lemma run_length_le:
  "length (sensorData st) \<le> 50 \<Longrightarrow> length (sensorData (snd (run reqs st))) \<le> 50"
proof (induction reqs arbitrary: st)
  case Nil
  then show ?case by simp
next
  case (Cons r reqs)
  obtain out st1 where h: "handle r st = (out, st1)" by (cases "handle r st")
  have "length (sensorData st1) \<le> 50"
    using handle_length [OF Cons.prems, of r] h by simp
  from Cons.IH [OF this] show ?case using h by (auto split: prod.splits)
qed

text \<open>
  C2. Every request (a post, a query, a query of the latest reading, a download)
  keeps the store at fifty readings or fewer, and so the store never holds more
  than fifty readings after any sequence of requests to the empty store.
\<close>

theorem store_at_most_50:
  "(length (sensorData st) \<le> 50 \<longrightarrow> length (sensorData (snd (handle req st))) \<le> 50)
   \<and> length (sensorData (snd (run reqs empty_store))) \<le> 50"
  using handle_length [of st req] run_length_le [of empty_store reqs]
  by (simp add: empty_store_def)

theorem store_at_most_50_witness:
  "length (sensorData \<lparr>sensorData = replicate 50 (sample_reading 0)\<rparr>) \<le> 50
   \<and> length (sensorData (snd (handle (PostSensorData (sample_clock 1) sample_body)
                                  \<lparr>sensorData = replicate 50 (sample_reading 0)\<rparr>))) \<le> 50
   \<and> length (sensorData (snd (run [PostSensorData (sample_clock 1) sample_body, GetLatest]
                                  empty_store))) \<le> 50"
  using store_at_most_50 [of "\<lparr>sensorData = replicate 50 (sample_reading 0)\<rparr>"
          "PostSensorData (sample_clock 1) sample_body"
          "[PostSensorData (sample_clock 1) sample_body, GetLatest]"]
  by simp

subsection \<open>Reading back\<close>

text \<open>
  C9. A query with any value of \<^verbatim>\<open>limit\<close>, a query of the latest reading and a
  download leave the store as it was.
\<close>

theorem reads_leave_store:
  "snd (get_sensor_data q st) = st \<and> snd (get_latest st) = st \<and> snd (get_download io st) = st
   \<and> snd (handle (GetSensorData q) st) = st \<and> snd (handle GetLatest st) = st
   \<and> snd (handle (GetDownload io) st) = st"
  by (simp add: get_sensor_data_snd get_latest_snd get_download_snd)

text \<open>
  C5. The query of the latest reading answers 200 with the head of the store when
  the store is not empty, and answers 404 exactly when the store is empty; after
  one stored post to the empty store it answers with the reading of that post.
\<close>

theorem latest_reading:
  "(sensorData st \<noteq> [] \<longrightarrow> fst (get_latest st) = Json 200 (DataItem True (hd (sensorData st))))
   \<and> ((fst (get_latest st) = Json 404 (Message False ''No data available'')) = (sensorData st = []))
   \<and> ((\<exists>b. fst (get_latest st) = Json 404 b) = (sensorData st = []))
   \<and> (post_sensor_data clk body empty_store = (Inr (Json 200 (Stored True m r)), st1)
        \<longrightarrow> fst (get_latest st1) = Json 200 (DataItem True r))"
  by (auto simp add: get_latest_def post_sensor_data_def Let_def empty_store_def
           split: list.splits if_splits sum.splits)

theorem latest_reading_witness:
  "sensorData \<lparr>sensorData = [sample_reading 0]\<rparr> \<noteq> []
   \<and> fst (get_latest \<lparr>sensorData = [sample_reading 0]\<rparr>) = Json 200 (DataItem True (sample_reading 0))
   \<and> post_sensor_data (sample_clock 0) sample_body empty_store
       = (Inr (Json 200 (Stored True ''Data stored successfully in memory'' (sample_reading 0))),
          \<lparr>sensorData = [sample_reading 0]\<rparr>)
   \<and> fst (get_latest empty_store) = Json 404 (Message False ''No data available'')"
  using latest_reading [where st = "\<lparr>sensorData = [sample_reading 0]\<rparr>"
          and clk = "sample_clock 0" and body = sample_body
          and m = "''Data stored successfully in memory''" and r = "sample_reading 0"
          and ?st1.0 = "\<lparr>sensorData = [sample_reading 0]\<rparr>"]
        latest_reading [where st = empty_store]
  by (simp add: sample_post empty_store_def)

subsection \<open>The decimal string of an integer\<close>

lemma digit_value_char_of:
  "0 \<le> d \<Longrightarrow> d < 10 \<Longrightarrow> digit_value (char_of (48 + d)) = Some d"
  by (simp add: digit_value_def Let_def)

lemma digits_value_snoc:
  "digits_value R (xs @ [c]) =
     digits_value R xs * R + (case digit_value c of Some d \<Rightarrow> d | None \<Rightarrow> 0)"
  by (simp add: digits_value_def)

lemma digits_value_decimal_digits: "0 \<le> n \<Longrightarrow> digits_value 10 (decimal_digits n) = n"
proof (induction n rule: decimal_digits.induct)
  case (1 n)
  show ?case
  proof (cases "n < 10")
    case True
    then have "decimal_digits n = [char_of (48 + n)]"
      by (subst decimal_digits.simps) simp
    then show ?thesis
      using True "1.prems" by (simp add: digits_value_def digit_value_char_of)
  next
    case False
    then have e: "decimal_digits n = decimal_digits (n div 10) @ [char_of (48 + n mod 10)]"
      by (subst decimal_digits.simps) simp
    have "digits_value 10 (decimal_digits (n div 10)) = n div 10"
      using "1.IH" False "1.prems" by simp
    then show ?thesis
      unfolding e by (simp add: digits_value_snoc digit_value_char_of)
  qed
qed

lemma char_of_is_digit: "0 \<le> d \<Longrightarrow> d < 10 \<Longrightarrow> is_radix_digit 10 (char_of (48 + d :: int))"
  by (simp add: is_radix_digit_def digit_value_char_of)

lemma decimal_digits_are_digits: "0 \<le> n \<Longrightarrow> list_all (is_radix_digit 10) (decimal_digits n)"
proof (induction n rule: decimal_digits.induct)
  case (1 n)
  show ?case
  proof (cases "n < 10")
    case True
    then have "decimal_digits n = [char_of (48 + n)]"
      by (subst decimal_digits.simps) simp
    then show ?thesis
      using True "1.prems" by (simp add: char_of_is_digit)
  next
    case False
    then have e: "decimal_digits n = decimal_digits (n div 10) @ [char_of (48 + n mod 10)]"
      by (subst decimal_digits.simps) simp
    have "list_all (is_radix_digit 10) (decimal_digits (n div 10))"
      using "1.IH" False "1.prems" by simp
    then show ?thesis
      unfolding e by (simp add: char_of_is_digit)
  qed
qed

lemma decimal_digits_not_empty: "decimal_digits n \<noteq> []"
  by (subst decimal_digits.simps) simp

lemma minus_is_no_digit: "\<not> is_radix_digit 10 (CHR ''-'')"
  by (simp add: is_radix_digit_def digit_value_def)

lemma toString_int_inj:
  assumes "toString_int a = toString_int b"
  shows "a = b"
proof -
  have mixed: False if "x < 0" "0 \<le> y" "CHR ''-'' # decimal_digits (- x) = decimal_digits y" for x y
  proof -
    have "list_all (is_radix_digit 10) (CHR ''-'' # decimal_digits (- x))"
      using decimal_digits_are_digits [OF that(2)] that(3) by simp
    then show False using minus_is_no_digit by simp
  qed
  show ?thesis
  proof (cases "a < 0")
    case True
    show ?thesis
    proof (cases "b < 0")
      case True
      with \<open>a < 0\<close> assms have "decimal_digits (- a) = decimal_digits (- b)"
        by (simp add: toString_int_def)
      then have "digits_value 10 (decimal_digits (- a)) = digits_value 10 (decimal_digits (- b))"
        by simp
      then show ?thesis
        using True \<open>a < 0\<close> by (simp add: digits_value_decimal_digits)
    next
      case False
      then show ?thesis
        using mixed [of a b] \<open>a < 0\<close> assms by (simp add: toString_int_def)
    qed
  next
    case False
    show ?thesis
    proof (cases "b < 0")
      case True
      then show ?thesis
        using mixed [of b a] False assms by (simp add: toString_int_def)
    next
      case bf: False
      with False assms have "decimal_digits a = decimal_digits b"
        by (simp add: toString_int_def)
      then have "digits_value 10 (decimal_digits a) = digits_value 10 (decimal_digits b)"
        by simp
      then show ?thesis
        using False bf by (simp add: digits_value_decimal_digits)
    qed
  qed
qed

lemma toString_int_not_empty: "toString_int n \<noteq> []"
  by (simp add: toString_int_def decimal_digits_not_empty)

lemma js_error_is_TypeError: "(e :: js_error) = TypeError"
  by (cases e) simp

lemma post_sensor_data_result:
  "post_sensor_data clk body st =
     (Inr (Json 400 (Message False
        ''Missing required fields: strain, vibration, displacement, or acceleration'')), st)
   \<or> post_sensor_data clk body st = (Inl TypeError, st)
   \<or> (\<exists>r. post_sensor_data clk body st =
              (Inr (Json 200 (Stored True ''Data stored successfully in memory'' r)),
               st\<lparr>sensorData := take 50 (r # sensorData st)\<rparr>)
          \<and> timestamp r = getISTDateTime clk \<and> id_str r = toString_int (now clk)
          \<and> ToNumber (get_property body ''strain'') = Inr (strain r)
          \<and> ToNumber (get_property body ''vibration'') = Inr (vibration r)
          \<and> ToNumber (get_property body ''displacement'') = Inr (displacement r)
          \<and> ToNumber (get_property body ''acceleration'') = Inr (acceleration r))"
  using js_error_is_TypeError
  by (auto simp add: post_sensor_data_def Let_def slice_from_0_take split: sum.splits)

subsection \<open>Ids\<close>

lemma post_sensor_data_ids:
  assumes "post_sensor_data clk body st = (out, st1)"
  shows "sensorData st1 = sensorData st
         \<or> (\<exists>r. sensorData st1 = take 50 (r # sensorData st) \<and> id_str r = toString_int (now clk))"
  using post_sensor_data_result [of clk body st] assms by auto

lemma run_posts_distinct_ids:
  assumes "run (map (\<lambda>(clk, body). PostSensorData clk body) posts) st0 = (outs, st)"
      and "distinct (map (\<lambda>(clk, body). now clk) posts)"
      and "distinct (map id_str (sensorData st0))"
      and "\<forall>r \<in> set (sensorData st0). \<forall>(clk, body) \<in> set posts. id_str r \<noteq> toString_int (now clk)"
  shows "distinct (map id_str (sensorData st))"
  using assms
proof (induction posts arbitrary: st0 outs)
  case Nil
  then show ?case by simp
next
  case (Cons p posts)
  obtain clk body where p: "p = (clk, body)" by (cases p)
  obtain out st1 where h: "post_sensor_data clk body st0 = (out, st1)"
    by (cases "post_sensor_data clk body st0")
  obtain outs1 where r: "run (map (\<lambda>(clk, body). PostSensorData clk body) posts) st1 = (outs1, st)"
    using Cons.prems(1) p h by (auto split: prod.splits)
  have d: "distinct (map (\<lambda>(clk, body). now clk) posts)"
    and fresh: "\<forall>(c, b) \<in> set posts. now c \<noteq> now clk"
    using Cons.prems(2) p by (auto simp add: image_iff split: prod.splits)
  have old: "\<forall>r \<in> set (sensorData st0). id_str r \<noteq> toString_int (now clk)"
    and rest: "\<forall>r \<in> set (sensorData st0). \<forall>(c, b) \<in> set posts. id_str r \<noteq> toString_int (now c)"
    using Cons.prems(4) p by auto
  from post_sensor_data_ids [OF h]
  have "distinct (map id_str (sensorData st1))
        \<and> (\<forall>r \<in> set (sensorData st1). \<forall>(c, b) \<in> set posts. id_str r \<noteq> toString_int (now c))"
  proof
    assume "sensorData st1 = sensorData st0"
    then show ?thesis using Cons.prems(3) rest by simp
  next
    assume "\<exists>r. sensorData st1 = take 50 (r # sensorData st0) \<and> id_str r = toString_int (now clk)"
    then obtain r where s1: "sensorData st1 = take 50 (r # sensorData st0)"
      and idr: "id_str r = toString_int (now clk)" by blast
    have "distinct (map id_str (r # sensorData st0))"
      using Cons.prems(3) old idr by auto
    then have a: "distinct (map id_str (sensorData st1))"
      unfolding s1 take_map [symmetric] by (rule distinct_take)
    have "\<forall>(c, b) \<in> set posts. id_str r \<noteq> toString_int (now c)"
      using fresh idr toString_int_inj by fastforce
    then have b: "\<forall>x \<in> set (r # sensorData st0). \<forall>(c, b) \<in> set posts. id_str x \<noteq> toString_int (now c)"
      using rest by simp
    have "set (sensorData st1) \<subseteq> set (r # sensorData st0)"
      unfolding s1 by (rule set_take_subset)
    with b have "\<forall>x \<in> set (sensorData st1). \<forall>(c, b) \<in> set posts. id_str x \<noteq> toString_int (now c)"
      by blast
    with a show ?thesis by simp
  qed
  then show ?case using Cons.IH [OF r d] by blast
qed

lemma ids_distinct_when_clock_advances:
  assumes "run (map (\<lambda>(clk, body). PostSensorData clk body) posts) empty_store = (outs, st)"
      and "distinct (map (\<lambda>(clk, body). now clk) posts)"
  shows "distinct (map id_str (sensorData st))"
  using run_posts_distinct_ids [OF assms] by (simp add: empty_store_def)

lemma post_stored_id:
  "fst (post_sensor_data clk body st) = Inr (Json 200 (Stored b m r)) \<Longrightarrow>
     id_str r = toString_int (now clk)"
  using post_sensor_data_result [of clk body st] by auto

lemma handle_store_origin:
  assumes "handle req st0 = (out, st1)" and "r \<in> set (sensorData st1)"
  shows "r \<in> set (sensorData st0)
         \<or> (\<exists>clk body. req = PostSensorData clk body
               \<and> out = Inr (Json 200 (Stored True ''Data stored successfully in memory'' r)))"
proof (cases req)
  case (PostSensorData clk body)
  from post_sensor_data_result [of clk body st0] assms PostSensorData
  show ?thesis by (auto dest: in_set_takeD)
next
  case (GetSensorData q)
  then show ?thesis using assms get_sensor_data_snd [of q st0] by auto
next
  case GetLatest
  then show ?thesis using assms get_latest_snd [of st0] by auto
next
  case (GetDownload io)
  then show ?thesis using assms get_download_snd [of io st0] by auto
qed

lemma run_store_origin:
  assumes "run reqs st0 = (outs, st)" and "r \<in> set (sensorData st)"
  shows "r \<in> set (sensorData st0)
         \<or> (\<exists>clk body. (PostSensorData clk body,
                Inr (Json 200 (Stored True ''Data stored successfully in memory'' r)))
              \<in> set (zip reqs outs))"
  using assms
proof (induction reqs arbitrary: st0 outs)
  case Nil
  then show ?case by simp
next
  case (Cons req reqs)
  obtain out st1 where h: "handle req st0 = (out, st1)" by (cases "handle req st0")
  obtain outs1 where r: "run reqs st1 = (outs1, st)" and o: "outs = out # outs1"
    using Cons.prems(1) h by (auto split: prod.splits)
  from Cons.IH [OF r Cons.prems(2)]
  show ?case
  proof
    assume "r \<in> set (sensorData st1)"
    from handle_store_origin [OF h this] show ?thesis using o by auto
  next
    assume "\<exists>clk body. (PostSensorData clk body,
                Inr (Json 200 (Stored True ''Data stored successfully in memory'' r)))
              \<in> set (zip reqs outs1)"
    then show ?thesis using o by auto
  qed
qed

lemma run_zip_handle:
  assumes "run reqs st0 = (outs, st)" and "(req, out) \<in> set (zip reqs outs)"
  shows "\<exists>st1. out = fst (handle req st1)"
  using assms
proof (induction reqs arbitrary: st0 outs)
  case Nil
  then show ?case by simp
next
  case (Cons q reqs)
  obtain o1 st1 where h: "handle q st0 = (o1, st1)" by (cases "handle q st0")
  obtain outs1 where r: "run reqs st1 = (outs1, st)" and o: "outs = o1 # outs1"
    using Cons.prems(1) h by (auto split: prod.splits)
  from Cons.prems(2) o have "(req, out) = (q, o1) \<or> (req, out) \<in> set (zip reqs outs1)"
    by simp
  then show ?case
  proof
    assume "(req, out) = (q, o1)"
    then show ?thesis using h by (intro exI [of _ st0]) simp
  next
    assume "(req, out) \<in> set (zip reqs outs1)"
    from Cons.IH [OF r this] show ?thesis .
  qed
qed

text \<open>
  C8, as the code has it. The id is the decimal string of \<^verbatim>\<open>Date.now()\<close>, and
  different integers have different strings. After any sequence of requests to
  the empty store, every reading in the store is the reading returned by one of
  the posts of the sequence; and two readings returned by posts have the same id
  exactly when the two posts read the same value of \<^verbatim>\<open>Date.now()\<close>. So two
  readings in the store have different ids whenever the posts that stored them
  read different values of \<^verbatim>\<open>Date.now()\<close>, whatever the other requests were.
\<close>

theorem stored_ids_differ_iff_clocks_differ:
  assumes "run reqs empty_store = (outs, st)"
  shows "(\<forall>r \<in> set (sensorData st).
            \<exists>clk body. (PostSensorData clk body,
                          Inr (Json 200 (Stored True ''Data stored successfully in memory'' r)))
                        \<in> set (zip reqs outs))
       \<and> (\<forall>clk1 body1 r1 clk2 body2 r2.
            (PostSensorData clk1 body1,
               Inr (Json 200 (Stored True ''Data stored successfully in memory'' r1)))
              \<in> set (zip reqs outs)
            \<and> (PostSensorData clk2 body2,
               Inr (Json 200 (Stored True ''Data stored successfully in memory'' r2)))
              \<in> set (zip reqs outs)
            \<longrightarrow> (id_str r1 = id_str r2) = (now clk1 = now clk2))"
proof -
  have a: "\<exists>clk body. (PostSensorData clk body,
                          Inr (Json 200 (Stored True ''Data stored successfully in memory'' r)))
                        \<in> set (zip reqs outs)"
    if "r \<in> set (sensorData st)" for r
    using run_store_origin [OF assms that] by (simp add: empty_store_def)
  have id: "id_str r = toString_int (now clk)"
    if "(PostSensorData clk body,
           Inr (Json 200 (Stored True ''Data stored successfully in memory'' r)))
          \<in> set (zip reqs outs)" for clk body r
  proof -
    from run_zip_handle [OF assms that] obtain st1 where
      "Inr (Json 200 (Stored True ''Data stored successfully in memory'' r))
         = fst (post_sensor_data clk body st1)"
      by auto
    then have "fst (post_sensor_data clk body st1)
                 = Inr (Json 200 (Stored True ''Data stored successfully in memory'' r))"
      by simp
    then show ?thesis by (rule post_stored_id)
  qed
  have b: "(id_str r1 = id_str r2) = (now clk1 = now clk2)"
    if "(PostSensorData clk1 body1,
           Inr (Json 200 (Stored True ''Data stored successfully in memory'' r1)))
          \<in> set (zip reqs outs)"
       "(PostSensorData clk2 body2,
           Inr (Json 200 (Stored True ''Data stored successfully in memory'' r2)))
          \<in> set (zip reqs outs)" for clk1 body1 r1 clk2 body2 r2
    using id [OF that(1)] id [OF that(2)] toString_int_inj [of "now clk1" "now clk2"] by auto
  from a b show ?thesis by blast
qed

lemma sample_post_missing:
  "post_sensor_data clk sample_body_missing st
   = (Inr (Json 400 (Message False
              ''Missing required fields: strain, vibration, displacement, or acceleration'')), st)"
  by (simp add: post_sensor_data_def get_property_def sample_body_missing_def)

lemma sample_run_ids:
  "run [PostSensorData (sample_clock 0) sample_body_missing,
        PostSensorData (sample_clock 0) sample_body,
        PostSensorData (sample_clock 0) sample_body,
        PostSensorData (sample_clock 1) sample_body] empty_store
   = ([Inr (Json 400 (Message False
              ''Missing required fields: strain, vibration, displacement, or acceleration'')),
       Inr (Json 200 (Stored True ''Data stored successfully in memory'' (sample_reading 0))),
       Inr (Json 200 (Stored True ''Data stored successfully in memory'' (sample_reading 0))),
       Inr (Json 200 (Stored True ''Data stored successfully in memory'' (sample_reading 1)))],
      \<lparr>sensorData = [sample_reading 1, sample_reading 0, sample_reading 0]\<rparr>)"
  by (simp add: sample_post sample_post_missing empty_store_def)

theorem stored_ids_differ_iff_clocks_differ_witness:
  "run [PostSensorData (sample_clock 0) sample_body_missing,
        PostSensorData (sample_clock 0) sample_body,
        PostSensorData (sample_clock 0) sample_body,
        PostSensorData (sample_clock 1) sample_body] empty_store
   = ([Inr (Json 400 (Message False
              ''Missing required fields: strain, vibration, displacement, or acceleration'')),
       Inr (Json 200 (Stored True ''Data stored successfully in memory'' (sample_reading 0))),
       Inr (Json 200 (Stored True ''Data stored successfully in memory'' (sample_reading 0))),
       Inr (Json 200 (Stored True ''Data stored successfully in memory'' (sample_reading 1)))],
      \<lparr>sensorData = [sample_reading 1, sample_reading 0, sample_reading 0]\<rparr>)
   \<and> now (sample_clock 0) \<noteq> now (sample_clock 1)
   \<and> id_str (sample_reading 0) \<noteq> id_str (sample_reading 1)"
proof -
  note h = stored_ids_differ_iff_clocks_differ [OF sample_run_ids]
  have n: "now (sample_clock 0) \<noteq> now (sample_clock 1)"
    by (simp add: sample_now)
  from h have "(id_str (sample_reading 0) = id_str (sample_reading 1))
                 = (now (sample_clock 0) = now (sample_clock 1))"
    by (elim conjE allE [of _ "sample_clock 0"] allE [of _ sample_body]
             allE [of _ "sample_reading 0"] allE [of _ "sample_clock 1"]
             allE [of _ "sample_reading 1"]) simp
  with n sample_run_ids show ?thesis by simp
qed

text \<open>
  C8, as stated, fails: two posts handled within the same millisecond store two
  readings with the same id.
\<close>

theorem ids_not_always_distinct:
  "\<not> distinct (map id_str (sensorData (snd (run
        [PostSensorData (sample_clock 0) sample_body, PostSensorData (sample_clock 0) sample_body]
        empty_store))))"
  by (simp add: sample_post empty_store_def)

subsection \<open>Posting a reading\<close>

lemma replace_date_not_empty: "s \<noteq> [] \<Longrightarrow> replace_date s \<noteq> []"
  by (cases s) (auto split: option.splits)

lemma ToNumber_throws: "(\<exists>e. ToNumber v = Inl e) = throws_in_ToString v"
  by (induction v rule: ToNumber.induct) (auto split: jsval.splits)

text \<open>
  C4. A post is answered with status 400, \<^verbatim>\<open>success: false\<close> and the message naming
  the four fields exactly when one of \<^verbatim>\<open>strain\<close>, \<^verbatim>\<open>vibration\<close>, \<^verbatim>\<open>displacement\<close>,
  \<^verbatim>\<open>acceleration\<close> is absent or \<^verbatim>\<open>null\<close>; the store is then unchanged. A body whose
  four fields are zero is stored.
\<close>

theorem missing_field_rejected:
  "((fst (post_sensor_data clk body st) = Inr (Json 400 (Message False
        ''Missing required fields: strain, vibration, displacement, or acceleration'')))
      = (\<exists>k \<in> set [''strain'', ''vibration'', ''displacement'', ''acceleration''].
           get_property body k = JUndefined \<or> get_property body k = JNull))
   \<and> ((\<exists>b. fst (post_sensor_data clk body st) = Inr (Json 400 b))
      = (\<exists>k \<in> set [''strain'', ''vibration'', ''displacement'', ''acceleration''].
           get_property body k = JUndefined \<or> get_property body k = JNull))
   \<and> ((\<exists>k \<in> set [''strain'', ''vibration'', ''displacement'', ''acceleration''].
           get_property body k = JUndefined \<or> get_property body k = JNull)
        \<longrightarrow> snd (post_sensor_data clk body st) = st)
   \<and> ((\<forall>k \<in> set [''strain'', ''vibration'', ''displacement'', ''acceleration''].
           get_property body k = JNumber (Finite 0))
        \<longrightarrow> (\<exists>r. fst (post_sensor_data clk body st)
                   = Inr (Json 200 (Stored True ''Data stored successfully in memory'' r))
                 \<and> strain r = Finite 0 \<and> vibration r = Finite 0
                 \<and> displacement r = Finite 0 \<and> acceleration r = Finite 0))"
  by (auto simp add: post_sensor_data_def Let_def split: sum.splits)


theorem missing_field_rejected_witness:
  "get_property sample_body_missing ''displacement'' = JUndefined
   \<and> post_sensor_data (sample_clock 0) sample_body_missing \<lparr>sensorData = [sample_reading 0]\<rparr>
       = (Inr (Json 400 (Message False
            ''Missing required fields: strain, vibration, displacement, or acceleration'')),
          \<lparr>sensorData = [sample_reading 0]\<rparr>)
   \<and> (\<exists>r. fst (post_sensor_data (sample_clock 0) sample_body_zero empty_store)
              = Inr (Json 200 (Stored True ''Data stored successfully in memory'' r))
            \<and> strain r = Finite 0 \<and> vibration r = Finite 0
            \<and> displacement r = Finite 0 \<and> acceleration r = Finite 0)"
proof -
  have a: "get_property sample_body_missing ''displacement'' = JUndefined"
    by (simp add: get_property_def sample_body_missing_def)
  then have m: "\<exists>k \<in> set [''strain'', ''vibration'', ''displacement'', ''acceleration''].
           get_property sample_body_missing k = JUndefined \<or> get_property sample_body_missing k = JNull"
    by simp
  have z: "\<forall>k \<in> set [''strain'', ''vibration'', ''displacement'', ''acceleration''].
           get_property sample_body_zero k = JNumber (Finite 0)"
    by (simp add: get_property_def sample_body_zero_def)
  note h1 = missing_field_rejected [of "sample_clock 0" sample_body_missing
              "\<lparr>sensorData = [sample_reading 0]\<rparr>"]
  note h2 = missing_field_rejected [of "sample_clock 0" sample_body_zero empty_store]
  from h1 m have "fst (post_sensor_data (sample_clock 0) sample_body_missing \<lparr>sensorData = [sample_reading 0]\<rparr>)
       = Inr (Json 400 (Message False
            ''Missing required fields: strain, vibration, displacement, or acceleration''))"
    and "snd (post_sensor_data (sample_clock 0) sample_body_missing \<lparr>sensorData = [sample_reading 0]\<rparr>)
       = \<lparr>sensorData = [sample_reading 0]\<rparr>"
    by blast+
  then have b: "post_sensor_data (sample_clock 0) sample_body_missing \<lparr>sensorData = [sample_reading 0]\<rparr>
       = (Inr (Json 400 (Message False
            ''Missing required fields: strain, vibration, displacement, or acceleration'')),
          \<lparr>sensorData = [sample_reading 0]\<rparr>)"
    by (simp add: prod_eq_iff)
  from h2 z have c: "\<exists>r. fst (post_sensor_data (sample_clock 0) sample_body_zero empty_store)
              = Inr (Json 200 (Stored True ''Data stored successfully in memory'' r))
            \<and> strain r = Finite 0 \<and> vibration r = Finite 0
            \<and> displacement r = Finite 0 \<and> acceleration r = Finite 0"
    by blast
  from a b c show ?thesis by blast
qed

text \<open>
  C6. A post answered with status 200 returns the reading it built: its timestamp
  and id are those of the clock (the id is never empty, nor is the timestamp when
  the formatted date is not), the reading is the head of the store afterwards, and
  every field posted as a number is kept as that number. A body with four numbers
  is answered with status 200.
\<close>

theorem stored_reading_returned:
  "(\<forall>b. fst (post_sensor_data clk body st) = Inr (Json 200 b) \<longrightarrow>
      (\<exists>r. b = Stored True ''Data stored successfully in memory'' r
          \<and> timestamp r = getISTDateTime clk \<and> id_str r = toString_int (now clk)
          \<and> id_str r \<noteq> [] \<and> (toLocaleString clk \<noteq> [] \<longrightarrow> timestamp r \<noteq> [])
          \<and> sensorData (snd (post_sensor_data clk body st)) = take 50 (r # sensorData st)
          \<and> hd (sensorData (snd (post_sensor_data clk body st))) = r
          \<and> (\<forall>(k, field) \<in> set [(''strain'', strain), (''vibration'', vibration),
                                   (''displacement'', displacement), (''acceleration'', acceleration)].
                \<forall>x. get_property body k = JNumber x \<longrightarrow> field r = x)))
   \<and> ((\<forall>k \<in> set [''strain'', ''vibration'', ''displacement'', ''acceleration''].
          \<exists>x. get_property body k = JNumber x)
        \<longrightarrow> (\<exists>b. fst (post_sensor_data clk body st) = Inr (Json 200 b)))"
proof -
  have 1: "\<exists>r. b = Stored True ''Data stored successfully in memory'' r
          \<and> timestamp r = getISTDateTime clk \<and> id_str r = toString_int (now clk)
          \<and> id_str r \<noteq> [] \<and> (toLocaleString clk \<noteq> [] \<longrightarrow> timestamp r \<noteq> [])
          \<and> sensorData (snd (post_sensor_data clk body st)) = take 50 (r # sensorData st)
          \<and> hd (sensorData (snd (post_sensor_data clk body st))) = r
          \<and> (\<forall>(k, field) \<in> set [(''strain'', strain), (''vibration'', vibration),
                                   (''displacement'', displacement), (''acceleration'', acceleration)].
                \<forall>x. get_property body k = JNumber x \<longrightarrow> field r = x)"
    if "fst (post_sensor_data clk body st) = Inr (Json 200 b)" for b
    using post_sensor_data_result [of clk body st] that
    by (auto simp add: toString_int_not_empty getISTDateTime_def replace_date_not_empty)
  have 2: "\<exists>b. fst (post_sensor_data clk body st) = Inr (Json 200 b)"
    if "\<forall>k \<in> set [''strain'', ''vibration'', ''displacement'', ''acceleration''].
          \<exists>x. get_property body k = JNumber x"
    using that by (auto simp add: post_sensor_data_def Let_def)
  from 1 2 show ?thesis by blast
qed

lemma decimal_digits_small: "n < 10 \<Longrightarrow> decimal_digits n = [char_of (48 + n)]"
  by (subst decimal_digits.simps) simp

lemma decimal_digits_large:
  "\<not> n < 10 \<Longrightarrow> decimal_digits n = decimal_digits (n div 10) @ [char_of (48 + n mod 10)]"
  by (subst decimal_digits.simps) simp

lemma sample_id_0: "toString_int 1793608509000 = ''1793608509000''"
  by (simp add: toString_int_def decimal_digits_small decimal_digits_large char_of_def)

theorem stored_reading_returned_witness:
  "fst (post_sensor_data (sample_clock 0) sample_body empty_store)
     = Inr (Json 200 (Stored True ''Data stored successfully in memory'' (sample_reading 0)))
   \<and> timestamp (sample_reading 0) = ''2026-11-02, 14:05:09''
   \<and> id_str (sample_reading 0) = ''1793608509000''
   \<and> sensorData (snd (post_sensor_data (sample_clock 0) sample_body empty_store)) = [sample_reading 0]
   \<and> strain (sample_reading 0) = Finite 10 \<and> vibration (sample_reading 0) = Finite 0
   \<and> displacement (sample_reading 0) = Finite 0 \<and> acceleration (sample_reading 0) = Finite 0"
  using stored_reading_returned [of "sample_clock 0" sample_body empty_store]
  by (simp add: sample_post empty_store_def sample_reading_def sample_id_0)

subsection \<open>The functions read the grammar\<close>

lemma of_char_eq_iff_char_of:
  "0 \<le> n \<Longrightarrow> n < 256 \<Longrightarrow> ((of_char c :: int) = n) = (c = char_of n)"
  by (auto simp add: of_char_of)

lemma is_white_space_iff:
  "is_white_space c = (c \<in> {CHR 0x09, CHR 0x0B, CHR 0x0C, CHR 0x20, CHR 0xA0, CHR 0x0A, CHR 0x0D})"
  unfolding is_white_space_def
  by (auto simp add: of_char_eq_iff_char_of char_of_def)

lemma is_decimal_digit_iff: "is_radix_digit 10 c = (c \<in> set ''0123456789'')"
proof -
  have "is_radix_digit 10 c = ((of_char c :: int) \<in> {48, 49, 50, 51, 52, 53, 54, 55, 56, 57})"
    unfolding is_radix_digit_def digit_value_def Let_def by (simp; presburger)
  then show ?thesis
    by (simp add: of_char_eq_iff_char_of char_of_def)
qed

lemma is_binary_digit_iff: "is_radix_digit 2 c = (c \<in> set ''01'')"
proof -
  have "is_radix_digit 2 c = ((of_char c :: int) \<in> {48, 49})"
    unfolding is_radix_digit_def digit_value_def Let_def by (simp; presburger)
  then show ?thesis
    by (simp add: of_char_eq_iff_char_of char_of_def)
qed

lemma is_octal_digit_iff: "is_radix_digit 8 c = (c \<in> set ''01234567'')"
proof -
  have "is_radix_digit 8 c = ((of_char c :: int) \<in> {48, 49, 50, 51, 52, 53, 54, 55})"
    unfolding is_radix_digit_def digit_value_def Let_def by (simp; presburger)
  then show ?thesis
    by (simp add: of_char_eq_iff_char_of char_of_def)
qed

lemma is_hex_digit_iff: "is_radix_digit 16 c = (c \<in> set ''0123456789abcdefABCDEF'')"
proof -
  have "is_radix_digit 16 c =
          ((of_char c :: int) \<in> {48, 49, 50, 51, 52, 53, 54, 55, 56, 57,
                                  97, 98, 99, 100, 101, 102, 65, 66, 67, 68, 69, 70})"
    unfolding is_radix_digit_def digit_value_def Let_def by (simp; presburger)
  then show ?thesis
    by (simp add: of_char_eq_iff_char_of char_of_def)
qed

lemma DecimalDigits_iff: "DecimalDigits ds = (ds \<noteq> [] \<and> list_all (is_radix_digit 10) ds)"
  unfolding DecimalDigits_def list_all_iff is_decimal_digit_iff by blast

lemma takeWhile_stop: "ys = [] \<or> \<not> P (hd ys) \<Longrightarrow> takeWhile P ys = []"
  by (cases ys) auto

lemma dropWhile_stop: "ys = [] \<or> \<not> P (hd ys) \<Longrightarrow> dropWhile P ys = ys"
  by (cases ys) auto

lemma takeWhile_prefix:
  "list_all P xs \<Longrightarrow> ys = [] \<or> \<not> P (hd ys) \<Longrightarrow> takeWhile P (xs @ ys) = xs"
  by (induction xs) (simp_all add: takeWhile_stop)

lemma dropWhile_prefix:
  "list_all P xs \<Longrightarrow> ys = [] \<or> \<not> P (hd ys) \<Longrightarrow> dropWhile P (xs @ ys) = ys"
  by (induction xs) (simp_all add: dropWhile_stop)

lemma list_all_takeWhile: "list_all P (takeWhile P xs)"
  by (induction xs) auto

lemma no_digit_chars:
  "\<not> is_radix_digit 10 (CHR ''+'')" "\<not> is_radix_digit 10 (CHR ''-'')"
  "\<not> is_radix_digit 10 (CHR ''.'')" "\<not> is_radix_digit 10 (CHR ''e'')"
  "\<not> is_radix_digit 10 (CHR ''E'')" "\<not> is_radix_digit 10 (CHR ''I'')"
  by (simp_all add: is_decimal_digit_iff)

lemma exponent_part_iff: "(exponent_part r \<noteq> None) = (r = [] \<or> ExponentPart r)"
proof (cases r)
  case Nil
  then show ?thesis by (simp add: exponent_part_def)
next
  case (Cons c t)
  show ?thesis
  proof
    assume a: "exponent_part r \<noteq> None"
    then have ind: "c = CHR ''e'' \<or> c = CHR ''E''"
      using Cons by (auto simp add: exponent_part_def split: if_splits)
    define ds where "ds = (if t \<noteq> [] \<and> (hd t = CHR ''+'' \<or> hd t = CHR ''-'') then tl t else t)"
    from a Cons ind have d: "ds \<noteq> [] \<and> list_all (is_radix_digit 10) ds"
      unfolding ds_def by (auto simp add: exponent_part_def Let_def split: if_splits)
    have "\<exists>sgn. t = sgn @ ds \<and> sgn \<in> {[], ''+'', ''-''}"
    proof (cases "t \<noteq> [] \<and> (hd t = CHR ''+'' \<or> hd t = CHR ''-'')")
      case True
      then have "ds = tl t" unfolding ds_def by simp
      with True have "t = [hd t] @ ds" by simp
      with True show ?thesis by (intro exI [of _ "[hd t]"]) auto
    next
      case False
      then have "ds = t" unfolding ds_def by auto
      then have "t = [] @ ds" by simp
      then show ?thesis by blast
    qed
    then obtain sgn where "t = sgn @ ds" "sgn \<in> {[], ''+'', ''-''}" by blast
    then have "ExponentPart r"
      unfolding ExponentPart_def using Cons ind d
      by (intro exI [of _ "[c]"] exI [of _ sgn] exI [of _ ds]) (auto simp add: DecimalDigits_iff)
    then show "r = [] \<or> ExponentPart r" ..
  next
    assume "r = [] \<or> ExponentPart r"
    then have "ExponentPart r" using Cons by simp
    then obtain ind sgn ds where r: "r = ind @ sgn @ ds" and ind: "ind \<in> {''e'', ''E''}"
      and sgn: "sgn \<in> {[], ''+'', ''-''}" and ds: "ds \<noteq> []" "list_all (is_radix_digit 10) ds"
      unfolding ExponentPart_def DecimalDigits_iff by blast
    from ds obtain d ds' where dd: "ds = d # ds'" "is_radix_digit 10 d"
      by (cases ds) auto
    then have nd: "d \<noteq> CHR ''+''" "d \<noteq> CHR ''-''"
      using no_digit_chars by auto
    show "exponent_part r \<noteq> None"
      using r ind sgn ds dd nd
      by (auto simp add: exponent_part_def Let_def)
  qed
qed

lemma exponent_start:
  assumes "ex = [] \<or> ExponentPart ex"
  shows "ex = [] \<or> \<not> is_radix_digit 10 (hd ex)" and "ex = [] \<or> hd ex \<noteq> CHR ''.''"
  using assms no_digit_chars unfolding ExponentPart_def by auto

lemma unsigned_decimal_literal_complete:
  assumes "StrUnsignedDecimalLiteral u"
  shows "unsigned_decimal_literal u \<noteq> None"
proof (cases "u = ''Infinity''")
  case True
  then show ?thesis by (simp add: unsigned_decimal_literal_def)
next
  case False
  from assms False consider
      (point) ip fp ex where "u = ip @ ''.'' @ fp @ ex" "DecimalDigits ip"
        "fp = [] \<or> DecimalDigits fp" "ex = [] \<or> ExponentPart ex"
    | (fraction) fp ex where "u = ''.'' @ fp @ ex" "DecimalDigits fp" "ex = [] \<or> ExponentPart ex"
    | (integer) ip ex where "u = ip @ ex" "DecimalDigits ip" "ex = [] \<or> ExponentPart ex"
    unfolding StrUnsignedDecimalLiteral_def by blast
  then show ?thesis
  proof cases
    case point
    have ip: "ip \<noteq> []" "list_all (is_radix_digit 10) ip"
      using point(2) by (simp_all add: DecimalDigits_iff)
    have fp: "list_all (is_radix_digit 10) fp"
      using point(3) by (auto simp add: DecimalDigits_iff)
    have 1: "takeWhile (is_radix_digit 10) u = ip" "dropWhile (is_radix_digit 10) u = ''.'' @ fp @ ex"
      unfolding point(1)
      by (rule takeWhile_prefix [OF ip(2)], simp add: no_digit_chars,
          rule dropWhile_prefix [OF ip(2)], simp add: no_digit_chars)
    have 2: "takeWhile (is_radix_digit 10) (fp @ ex) = fp" "dropWhile (is_radix_digit 10) (fp @ ex) = ex"
      using takeWhile_prefix [OF fp exponent_start(1) [OF point(4)]]
            dropWhile_prefix [OF fp exponent_start(1) [OF point(4)]] by simp_all
    have 3: "exponent_part ex \<noteq> None"
      using point(4) exponent_part_iff [of ex] by blast
    show ?thesis
      using False ip 3 by (auto simp add: unsigned_decimal_literal_def 1 2 Let_def)
  next
    case fraction
    have fp: "fp \<noteq> []" "list_all (is_radix_digit 10) fp"
      using fraction(2) by (simp_all add: DecimalDigits_iff)
    have 1: "takeWhile (is_radix_digit 10) u = []" "dropWhile (is_radix_digit 10) u = ''.'' @ fp @ ex"
      unfolding fraction(1) by (simp_all add: no_digit_chars)
    have 2: "takeWhile (is_radix_digit 10) (fp @ ex) = fp" "dropWhile (is_radix_digit 10) (fp @ ex) = ex"
      using takeWhile_prefix [OF fp(2) exponent_start(1) [OF fraction(3)]]
            dropWhile_prefix [OF fp(2) exponent_start(1) [OF fraction(3)]] by simp_all
    have 3: "exponent_part ex \<noteq> None"
      using fraction(3) exponent_part_iff [of ex] by blast
    show ?thesis
      using False fp 3 by (auto simp add: unsigned_decimal_literal_def 1 2 Let_def)
  next
    case integer
    have ip: "ip \<noteq> []" "list_all (is_radix_digit 10) ip"
      using integer(2) by (simp_all add: DecimalDigits_iff)
    have 1: "takeWhile (is_radix_digit 10) u = ip" "dropWhile (is_radix_digit 10) u = ex"
      unfolding integer(1)
      using takeWhile_prefix [OF ip(2) exponent_start(1) [OF integer(3)]]
            dropWhile_prefix [OF ip(2) exponent_start(1) [OF integer(3)]] by simp_all
    have 3: "exponent_part ex \<noteq> None"
      using integer(3) exponent_part_iff [of ex] by blast
    show ?thesis
      using False ip 3 exponent_start(2) [OF integer(3)]
      by (auto simp add: unsigned_decimal_literal_def 1 Let_def)
  qed
qed

lemma unsigned_decimal_literal_sound:
  assumes "unsigned_decimal_literal u \<noteq> None"
  shows "StrUnsignedDecimalLiteral u"
proof (cases "u = ''Infinity''")
  case True
  then show ?thesis by (simp add: StrUnsignedDecimalLiteral_def)
next
  case False
  define ip where "ip = takeWhile (is_radix_digit 10) u"
  define r1 where "r1 = dropWhile (is_radix_digit 10) u"
  have u: "u = ip @ r1" by (simp add: ip_def r1_def)
  have ip: "list_all (is_radix_digit 10) ip" by (simp add: ip_def list_all_takeWhile)
  show ?thesis
  proof (cases "r1 \<noteq> [] \<and> hd r1 = CHR ''.''")
    case True
    define fp where "fp = takeWhile (is_radix_digit 10) (tl r1)"
    define r2 where "r2 = dropWhile (is_radix_digit 10) (tl r1)"
    have r1: "r1 = ''.'' @ fp @ r2"
      using True by (cases r1) (simp_all add: fp_def r2_def)
    have fp: "list_all (is_radix_digit 10) fp" by (simp add: fp_def list_all_takeWhile)
    from assms False True have ne: "\<not> (ip = [] \<and> fp = [])" and ex: "exponent_part r2 \<noteq> None"
      by (auto simp add: unsigned_decimal_literal_def Let_def ip_def [symmetric]
            r1_def [symmetric] fp_def [symmetric] r2_def [symmetric] split: if_splits option.splits)
    from ex have ex': "r2 = [] \<or> ExponentPart r2" using exponent_part_iff [of r2] by blast
    show ?thesis
    proof (cases "ip = []")
      case True
      with ne have "DecimalDigits fp" using fp by (simp add: DecimalDigits_iff)
      moreover have "u = ''.'' @ fp @ r2" using u r1 True by simp
      ultimately show ?thesis unfolding StrUnsignedDecimalLiteral_def using ex' by blast
    next
      case False
      then have "DecimalDigits ip" using ip by (simp add: DecimalDigits_iff)
      moreover have "fp = [] \<or> DecimalDigits fp" using fp by (simp add: DecimalDigits_iff)
      moreover have "u = ip @ ''.'' @ fp @ r2" using u r1 by simp
      ultimately show ?thesis unfolding StrUnsignedDecimalLiteral_def using ex' by blast
    qed
  next
    case nodot: False
    from assms False nodot have ne: "ip \<noteq> []" and ex: "exponent_part r1 \<noteq> None"
      by (auto simp add: unsigned_decimal_literal_def Let_def ip_def [symmetric]
            r1_def [symmetric] split: if_splits option.splits)
    from ex have ex': "r1 = [] \<or> ExponentPart r1" using exponent_part_iff [of r1] by blast
    have "DecimalDigits ip" using ne ip by (simp add: DecimalDigits_iff)
    then show ?thesis unfolding StrUnsignedDecimalLiteral_def using u ex' by blast
  qed
qed

lemma unsigned_decimal_literal_iff:
  "(unsigned_decimal_literal u \<noteq> None) = StrUnsignedDecimalLiteral u"
  using unsigned_decimal_literal_complete unsigned_decimal_literal_sound by blast

lemma non_decimal_integer_literal_iff:
  "(non_decimal_integer_literal n \<noteq> None) = NonDecimalIntegerLiteral n"
proof
  assume a: "non_decimal_integer_literal n \<noteq> None"
  have n: "n = take 2 n @ drop 2 n" by simp
  from a have "drop 2 n \<noteq> []
      \<and> (take 2 n \<in> {''0b'', ''0B''} \<and> list_all (is_radix_digit 2) (drop 2 n)
         \<or> take 2 n \<in> {''0o'', ''0O''} \<and> list_all (is_radix_digit 8) (drop 2 n)
         \<or> take 2 n \<in> {''0x'', ''0X''} \<and> list_all (is_radix_digit 16) (drop 2 n))"
    by (auto simp add: non_decimal_integer_literal_def Let_def split: if_splits)
  then have "drop 2 n \<noteq> []
      \<and> (take 2 n \<in> {''0b'', ''0B''} \<and> set (drop 2 n) \<subseteq> set ''01''
         \<or> take 2 n \<in> {''0o'', ''0O''} \<and> set (drop 2 n) \<subseteq> set ''01234567''
         \<or> take 2 n \<in> {''0x'', ''0X''} \<and> set (drop 2 n) \<subseteq> set ''0123456789abcdefABCDEF'')"
    unfolding list_all_iff is_binary_digit_iff is_octal_digit_iff is_hex_digit_iff by blast
  with n show "NonDecimalIntegerLiteral n"
    unfolding NonDecimalIntegerLiteral_def by blast
next
  assume "NonDecimalIntegerLiteral n"
  then obtain p ds where n: "n = p @ ds" and ds: "ds \<noteq> []"
    and c: "p \<in> {''0b'', ''0B''} \<and> set ds \<subseteq> set ''01''
           \<or> p \<in> {''0o'', ''0O''} \<and> set ds \<subseteq> set ''01234567''
           \<or> p \<in> {''0x'', ''0X''} \<and> set ds \<subseteq> set ''0123456789abcdefABCDEF''"
    unfolding NonDecimalIntegerLiteral_def by blast
  from c have c': "p \<in> {''0b'', ''0B''} \<and> list_all (is_radix_digit 2) ds
           \<or> p \<in> {''0o'', ''0O''} \<and> list_all (is_radix_digit 8) ds
           \<or> p \<in> {''0x'', ''0X''} \<and> list_all (is_radix_digit 16) ds"
    unfolding list_all_iff is_binary_digit_iff is_octal_digit_iff is_hex_digit_iff by blast
  from c have "length p = 2" by auto
  then have t: "take 2 n = p" "drop 2 n = ds" using n by simp_all
  show "non_decimal_integer_literal n \<noteq> None"
    using c' ds by (auto simp add: non_decimal_integer_literal_def t Let_def)
qed

lemma unsigned_start:
  assumes "StrUnsignedDecimalLiteral u"
  shows "u \<noteq> [] \<and> hd u \<noteq> CHR ''+'' \<and> hd u \<noteq> CHR ''-''"
proof -
  have d: "ds \<noteq> [] \<and> hd ds \<noteq> CHR ''+'' \<and> hd ds \<noteq> CHR ''-''" if "DecimalDigits ds" for ds
  proof -
    from that obtain c cs where "ds = c # cs" "is_radix_digit 10 c"
      unfolding DecimalDigits_iff by (cases ds) auto
    then show ?thesis using no_digit_chars by auto
  qed
  from assms show ?thesis
    unfolding StrUnsignedDecimalLiteral_def using d by (auto simp add: hd_append)
qed

lemma numeric_literal_iff: "(numeric_literal t \<noteq> None) = StrNumericLiteral t"
proof (cases "non_decimal_integer_literal t")
  case (Some v)
  then have "NonDecimalIntegerLiteral t"
    using non_decimal_integer_literal_iff [of t] by simp
  then show ?thesis using Some by (simp add: numeric_literal_def StrNumericLiteral_def)
next
  case None
  then have nd: "\<not> NonDecimalIntegerLiteral t"
    using non_decimal_integer_literal_iff [of t] by simp
  have u: "(unsigned_decimal_literal x \<noteq> None) = StrUnsignedDecimalLiteral x" for x
    by (rule unsigned_decimal_literal_iff)
  show ?thesis
  proof (cases "t \<noteq> [] \<and> hd t = CHR ''+''")
    case True
    then obtain r where t: "t = CHR ''+'' # r" by (cases t) auto
    have "StrDecimalLiteral t = StrUnsignedDecimalLiteral r"
      unfolding StrDecimalLiteral_def t using unsigned_start [of "CHR ''+'' # r"] by auto
    then show ?thesis
      using None nd u [of r] by (simp add: numeric_literal_def StrNumericLiteral_def t)
  next
    case noplus: False
    show ?thesis
    proof (cases "t \<noteq> [] \<and> hd t = CHR ''-''")
      case True
      then obtain r where t: "t = CHR ''-'' # r" by (cases t) auto
      have "StrDecimalLiteral t = StrUnsignedDecimalLiteral r"
        unfolding StrDecimalLiteral_def t using unsigned_start [of "CHR ''-'' # r"] by auto
      then show ?thesis
        using None nd u [of r] by (simp add: numeric_literal_def StrNumericLiteral_def t)
    next
      case False
      with noplus have "StrDecimalLiteral t = StrUnsignedDecimalLiteral t"
        unfolding StrDecimalLiteral_def by auto
      then show ?thesis
        using None nd u [of t] False noplus
        by (auto simp add: numeric_literal_def StrNumericLiteral_def)
    qed
  qed
qed

lemma round_mv_not_NaN: "round_mv q \<noteq> NaN"
  by (simp add: round_mv_def Let_def)

lemma negate_not_NaN: "v \<noteq> NaN \<Longrightarrow> negate v \<noteq> NaN"
  by (cases v) auto

lemma unsigned_decimal_literal_not_NaN: "unsigned_decimal_literal u \<noteq> Some NaN"
  by (auto simp add: unsigned_decimal_literal_def Let_def round_mv_not_NaN
        split: if_splits option.splits)

lemma numeric_literal_not_NaN: "numeric_literal t \<noteq> Some NaN"
proof -
  have "non_decimal_integer_literal t \<noteq> Some NaN"
    by (auto simp add: non_decimal_integer_literal_def Let_def round_mv_not_NaN split: if_splits)
  moreover have "map_option negate (unsigned_decimal_literal u) \<noteq> Some NaN" for u
    using unsigned_decimal_literal_not_NaN [of u] negate_not_NaN
    by (cases "unsigned_decimal_literal u") auto
  ultimately show ?thesis
    using unsigned_decimal_literal_not_NaN
    by (auto simp add: numeric_literal_def split: option.splits if_splits)
qed

lemma StrWhiteSpace_iff: "StrWhiteSpace w = list_all is_white_space w"
  unfolding StrWhiteSpace_def list_all_iff is_white_space_iff by blast

lemma digit_no_white_space: "is_radix_digit R c \<Longrightarrow> \<not> is_white_space c"
  by (auto simp add: is_radix_digit_def digit_value_def is_white_space_def Let_def
        split: if_splits)

lemma digits_no_white_space:
  "list_all (is_radix_digit R) ds \<Longrightarrow> \<forall>c \<in> set ds. \<not> is_white_space c"
  using digit_no_white_space by (auto simp add: list_all_iff)

lemma DecimalDigits_no_white_space: "DecimalDigits ds \<Longrightarrow> \<forall>c \<in> set ds. \<not> is_white_space c"
  unfolding DecimalDigits_iff using digits_no_white_space by blast

lemma ExponentPart_no_white_space:
  assumes "ExponentPart ex"
  shows "\<forall>c \<in> set ex. \<not> is_white_space c"
proof -
  from assms obtain ind sgn ds where ex: "ex = ind @ sgn @ ds" and ind: "ind \<in> {''e'', ''E''}"
    and sgn: "sgn \<in> {[], ''+'', ''-''}" and ds: "DecimalDigits ds"
    unfolding ExponentPart_def by blast
  from ind have 1: "\<forall>c \<in> set ind. \<not> is_white_space c"
    by (auto simp add: is_white_space_iff)
  from sgn have 2: "\<forall>c \<in> set sgn. \<not> is_white_space c"
    by (auto simp add: is_white_space_iff)
  from 1 2 DecimalDigits_no_white_space [OF ds] show ?thesis
    unfolding ex by auto
qed

lemma opt_no_white_space:
  "(\<And>x. P x \<Longrightarrow> \<forall>c \<in> set x. \<not> is_white_space c) \<Longrightarrow> x = [] \<or> P x \<Longrightarrow>
     \<forall>c \<in> set x. \<not> is_white_space c"
  by auto

lemma Unsigned_no_white_space:
  assumes "StrUnsignedDecimalLiteral u"
  shows "\<forall>c \<in> set u. \<not> is_white_space c"
proof -
  have p: "\<forall>c \<in> set ''.''. \<not> is_white_space c"
    by (simp add: is_white_space_iff)
  from assms consider
      (infinity) "u = ''Infinity''"
    | (point) ip fp ex where "u = ip @ ''.'' @ fp @ ex" "DecimalDigits ip"
        "fp = [] \<or> DecimalDigits fp" "ex = [] \<or> ExponentPart ex"
    | (fraction) fp ex where "u = ''.'' @ fp @ ex" "DecimalDigits fp" "ex = [] \<or> ExponentPart ex"
    | (integer) ip ex where "u = ip @ ex" "DecimalDigits ip" "ex = [] \<or> ExponentPart ex"
    unfolding StrUnsignedDecimalLiteral_def by blast
  then show ?thesis
  proof cases
    case infinity
    then show ?thesis by (simp add: is_white_space_iff)
  next
    case point
    from DecimalDigits_no_white_space [OF point(2)]
         opt_no_white_space [of DecimalDigits fp, OF DecimalDigits_no_white_space point(3)]
         opt_no_white_space [of ExponentPart ex, OF ExponentPart_no_white_space point(4)] p
    show ?thesis unfolding point(1) set_append by blast
  next
    case fraction
    from DecimalDigits_no_white_space [OF fraction(2)]
         opt_no_white_space [of ExponentPart ex, OF ExponentPart_no_white_space fraction(3)] p
    show ?thesis unfolding fraction(1) set_append by blast
  next
    case integer
    from DecimalDigits_no_white_space [OF integer(2)]
         opt_no_white_space [of ExponentPart ex, OF ExponentPart_no_white_space integer(3)]
    show ?thesis unfolding integer(1) set_append by blast
  qed
qed

lemma StrNumericLiteral_no_white_space:
  assumes "StrNumericLiteral l"
  shows "l \<noteq> [] \<and> (\<forall>c \<in> set l. \<not> is_white_space c)"
proof -
  have s: "\<not> is_white_space (CHR ''+'')" "\<not> is_white_space (CHR ''-'')"
    by (simp_all add: is_white_space_iff)
  have d: "l \<noteq> [] \<and> (\<forall>c \<in> set l. \<not> is_white_space c)" if "StrDecimalLiteral l"
  proof -
    from that consider (plain) "StrUnsignedDecimalLiteral l"
      | (plus) u where "l = CHR ''+'' # u" "StrUnsignedDecimalLiteral u"
      | (minus) u where "l = CHR ''-'' # u" "StrUnsignedDecimalLiteral u"
      unfolding StrDecimalLiteral_def by auto
    then show ?thesis
    proof cases
      case plain
      then show ?thesis using unsigned_start [OF plain] Unsigned_no_white_space [OF plain] by blast
    next
      case plus
      then show ?thesis using Unsigned_no_white_space [OF plus(2)] s by simp
    next
      case minus
      then show ?thesis using Unsigned_no_white_space [OF minus(2)] s by simp
    qed
  qed
  have n: "l \<noteq> [] \<and> (\<forall>c \<in> set l. \<not> is_white_space c)" if "NonDecimalIntegerLiteral l"
  proof -
    from that obtain p ds where l: "l = p @ ds" and ds: "ds \<noteq> []"
      and p: "p \<in> {''0b'', ''0B'', ''0o'', ''0O'', ''0x'', ''0X''}"
      and c: "set ds \<subseteq> set ''01'' \<or> set ds \<subseteq> set ''01234567''
              \<or> set ds \<subseteq> set ''0123456789abcdefABCDEF''"
      unfolding NonDecimalIntegerLiteral_def by blast
    from c have "list_all (is_radix_digit 2) ds \<or> list_all (is_radix_digit 8) ds
                 \<or> list_all (is_radix_digit 16) ds"
      unfolding list_all_iff is_binary_digit_iff is_octal_digit_iff is_hex_digit_iff by blast
    then have c': "\<forall>c \<in> set ds. \<not> is_white_space c"
      using digits_no_white_space by blast
    from p have "\<forall>c \<in> set p. \<not> is_white_space c"
      by (auto simp add: is_white_space_iff)
    then show ?thesis using l ds c' by auto
  qed
  from assms d n show ?thesis unfolding StrNumericLiteral_def by blast
qed

lemma trim_decompose:
  "\<exists>w1 w2. s = w1 @ trim s @ w2 \<and> list_all is_white_space w1 \<and> list_all is_white_space w2"
proof -
  define d where "d = dropWhile is_white_space s"
  have 1: "s = takeWhile is_white_space s @ d" by (simp add: d_def)
  have "rev (takeWhile is_white_space (rev d) @ dropWhile is_white_space (rev d)) = d"
    by (simp only: takeWhile_dropWhile_id rev_rev_ident)
  then have "rev (dropWhile is_white_space (rev d)) @ rev (takeWhile is_white_space (rev d)) = d"
    by (simp only: rev_append)
  then have 2: "d = trim s @ rev (takeWhile is_white_space (rev d))"
    by (simp only: trim_def d_def)
  have "s = takeWhile is_white_space s @ trim s @ rev (takeWhile is_white_space (rev d))"
    using 1 2 by simp
  moreover have "list_all is_white_space (takeWhile is_white_space s)"
    by (rule list_all_takeWhile)
  moreover have "list_all is_white_space (rev (takeWhile is_white_space (rev d)))"
    by (simp add: list_all_takeWhile)
  ultimately show ?thesis by blast
qed

lemma dropWhile_all: "list_all P w \<Longrightarrow> dropWhile P w = []"
  by (induction w) auto

lemma trim_white_space: "list_all is_white_space w \<Longrightarrow> trim w = []"
  by (simp add: trim_def dropWhile_all)

lemma trim_padded:
  assumes "list_all is_white_space w1" "list_all is_white_space w2"
      and "l \<noteq> []" "\<forall>c \<in> set l. \<not> is_white_space c"
  shows "trim (w1 @ l @ w2) = l"
proof -
  have h: "\<not> is_white_space (hd l)" "\<not> is_white_space (last l)"
    using assms(3,4) by simp_all
  have 1: "dropWhile is_white_space (w1 @ l @ w2) = l @ w2"
    using dropWhile_prefix [OF assms(1), of "l @ w2"] assms(3) h(1) by simp
  have "rev (l @ w2) = rev w2 @ rev l" by simp
  moreover have "dropWhile is_white_space (rev w2 @ rev l) = rev l"
    using dropWhile_prefix [of is_white_space "rev w2" "rev l"] assms(2,3) h(2)
    by (simp add: hd_rev)
  ultimately show ?thesis by (simp add: trim_def 1)
qed

lemma StringNumericLiteral_trim:
  "StringNumericLiteral s = (trim s = [] \<or> StrNumericLiteral (trim s))"
proof
  assume "StringNumericLiteral s"
  then obtain w1 l w2 where s: "s = w1 @ l @ w2" and w: "list_all is_white_space w1"
      "list_all is_white_space w2" and l: "l = [] \<or> StrNumericLiteral l"
    unfolding StringNumericLiteral_def StrWhiteSpace_iff by blast
  from l show "trim s = [] \<or> StrNumericLiteral (trim s)"
  proof
    assume "l = []"
    then have "list_all is_white_space s" using s w by simp
    then show ?thesis by (simp add: trim_white_space)
  next
    assume n: "StrNumericLiteral l"
    from StrNumericLiteral_no_white_space [OF n] have "trim s = l"
      unfolding s using trim_padded [OF w] by blast
    then show ?thesis using n by simp
  qed
next
  assume a: "trim s = [] \<or> StrNumericLiteral (trim s)"
  from trim_decompose [of s] obtain w1 w2 where "s = w1 @ trim s @ w2"
      "list_all is_white_space w1" "list_all is_white_space w2" by blast
  then show "StringNumericLiteral s"
    unfolding StringNumericLiteral_def StrWhiteSpace_iff using a by blast
qed

lemma StringToNumber_NaN_iff: "(StringToNumber s = NaN) = (\<not> StringNumericLiteral s)"
proof (cases "trim s = []")
  case True
  then show ?thesis by (simp add: StringToNumber_def StringNumericLiteral_trim)
next
  case False
  have "(StringToNumber s = NaN) = (numeric_literal (trim s) = None)"
    using False numeric_literal_not_NaN [of "trim s"]
    by (auto simp add: StringToNumber_def Let_def split: option.splits)
  also have "\<dots> = (\<not> StrNumericLiteral (trim s))"
    using numeric_literal_iff [of "trim s"] by blast
  also have "\<dots> = (\<not> StringNumericLiteral s)"
    using False by (simp add: StringNumericLiteral_trim)
  finally show ?thesis .
qed

subsection \<open>What a post accepts\<close>

lemma ToNumber_total: "\<not> throws_in_ToString v \<Longrightarrow> \<exists>n. ToNumber v = Inr n"
  using ToNumber_throws [of v] by (cases "ToNumber v") auto

text \<open>
  C10, as the code has it. The post checks only that the four fields are present.
  When they are, and their conversion does not throw, the post is answered with
  status 200 and stores \<^verbatim>\<open>Number(field)\<close> for each field; a field posted as a
  string is stored as \<^verbatim>\<open>NaN\<close> exactly when the string is not a
  \<^verbatim>\<open>StringNumericLiteral\<close> of the grammar. The conversion never throws for a
  string, a number or a boolean; it throws only for an object with an own
  \<^verbatim>\<open>toString\<close> property, alone or inside an array.
\<close>

theorem presence_is_the_only_check:
  assumes "\<forall>k \<in> set [''strain'', ''vibration'', ''displacement'', ''acceleration''].
             get_property body k \<noteq> JUndefined \<and> get_property body k \<noteq> JNull
             \<and> \<not> throws_in_ToString (get_property body k)"
  shows "\<exists>r. post_sensor_data clk body st =
               (Inr (Json 200 (Stored True ''Data stored successfully in memory'' r)),
                st\<lparr>sensorData := take 50 (r # sensorData st)\<rparr>)
           \<and> (\<forall>(k, field) \<in> set [(''strain'', strain), (''vibration'', vibration),
                                    (''displacement'', displacement), (''acceleration'', acceleration)].
                 ToNumber (get_property body k) = Inr (field r)
                 \<and> (\<forall>s. get_property body k = JString s \<longrightarrow>
                        (field r = NaN) = (\<not> StringNumericLiteral s)))"
proof -
  from assms have present: "get_property body ''strain'' \<noteq> JUndefined" "get_property body ''strain'' \<noteq> JNull"
      "get_property body ''vibration'' \<noteq> JUndefined" "get_property body ''vibration'' \<noteq> JNull"
      "get_property body ''displacement'' \<noteq> JUndefined" "get_property body ''displacement'' \<noteq> JNull"
      "get_property body ''acceleration'' \<noteq> JUndefined" "get_property body ''acceleration'' \<noteq> JNull"
    by simp_all
  from assms have "\<not> throws_in_ToString (get_property body ''strain'')"
      "\<not> throws_in_ToString (get_property body ''vibration'')"
      "\<not> throws_in_ToString (get_property body ''displacement'')"
      "\<not> throws_in_ToString (get_property body ''acceleration'')"
    by simp_all
  then have total: "\<exists>n. ToNumber (get_property body ''strain'') = Inr n"
      "\<exists>n. ToNumber (get_property body ''vibration'') = Inr n"
      "\<exists>n. ToNumber (get_property body ''displacement'') = Inr n"
      "\<exists>n. ToNumber (get_property body ''acceleration'') = Inr n"
    by (simp_all add: ToNumber_total)
  have not400: "post_sensor_data clk body st \<noteq>
     (Inr (Json 400 (Message False
        ''Missing required fields: strain, vibration, displacement, or acceleration'')), st)"
    using present by (auto simp add: post_sensor_data_def Let_def split: sum.splits)
  have notthrown: "post_sensor_data clk body st \<noteq> (Inl TypeError, st)"
    using present total by (auto simp add: post_sensor_data_def Let_def split: sum.splits)
  from post_sensor_data_result [of clk body st] not400 notthrown
  obtain r where r: "post_sensor_data clk body st =
              (Inr (Json 200 (Stored True ''Data stored successfully in memory'' r)),
               st\<lparr>sensorData := take 50 (r # sensorData st)\<rparr>)"
     "ToNumber (get_property body ''strain'') = Inr (strain r)"
     "ToNumber (get_property body ''vibration'') = Inr (vibration r)"
     "ToNumber (get_property body ''displacement'') = Inr (displacement r)"
     "ToNumber (get_property body ''acceleration'') = Inr (acceleration r)"
    by blast
  have str: "(f = NaN) = (\<not> StringNumericLiteral s)"
    if "ToNumber v = Inr f" "v = JString s" for v f s
    using that StringToNumber_NaN_iff [of s] by auto
  show ?thesis
    using r str by (intro exI [of _ r]) auto
qed

lemma conversion_can_throw:
  "post_sensor_data clk
     [(''strain'', JObject [(''toString'', JNull)]), (''vibration'', JNumber (Finite 0)),
      (''displacement'', JNumber (Finite 0)), (''acceleration'', JNumber (Finite 0))] st
   = (Inl TypeError, st)"
  by (simp add: post_sensor_data_def get_property_def)

text \<open>
  C10, as stated, fails: a body whose \<^verbatim>\<open>strain\<close> is an object with an own
  \<^verbatim>\<open>toString\<close> property has its four fields present, and the post is neither
  answered nor stored: the conversion throws and the store is as before.
\<close>

theorem present_object_not_accepted:
  "get_property sample_body_object ''strain'' = JObject [(''toString'', JNull)]
   \<and> get_property sample_body_object ''vibration'' = JNumber (Finite 0)
   \<and> get_property sample_body_object ''displacement'' = JNumber (Finite 0)
   \<and> get_property sample_body_object ''acceleration'' = JNumber (Finite 0)
   \<and> post_sensor_data (sample_clock 0) sample_body_object empty_store = (Inl TypeError, empty_store)"
  by (simp add: post_sensor_data_def get_property_def sample_body_object_def)

lemma sample_text_NaN: "StringToNumber ''abc'' = NaN"
  by (simp add: StringToNumber_def trim_def is_white_space_def numeric_literal_def
        non_decimal_integer_literal_def unsigned_decimal_literal_def
        is_radix_digit_def digit_value_def Let_def)

lemma sample_not_literal: "\<not> StringNumericLiteral ''abc''"
  using sample_text_NaN by (simp add: StringToNumber_NaN_iff)

lemma trailing_text_is_NaN: "StringToNumber ''12abc'' = NaN"
  by code_simp

lemma padded_number_is_read: "StringToNumber '' 12 '' = Finite 12"
  by code_simp

lemma sample_text_number: "StringToNumber ''12.5'' = Finite (25 / 2)"
  by code_simp

lemma sample_post_text:
  "post_sensor_data (sample_clock 0) sample_body_text st =
     (Inr (Json 200 (Stored True ''Data stored successfully in memory'' sample_reading_text)),
      st\<lparr>sensorData := take 50 (sample_reading_text # sensorData st)\<rparr>)"
  by (simp add: post_sensor_data_def sample_body_text_def get_property_def sample_getISTDateTime
        sample_reading_text_def Let_def slice_from_0_def sample_now sample_text_NaN
        sample_text_number)

theorem presence_is_the_only_check_witness:
  "get_property sample_body_text ''strain'' = JString ''abc''
   \<and> get_property sample_body_text ''vibration'' = JString ''12.5''
   \<and> get_property sample_body_text ''displacement'' = JBool True
   \<and> get_property sample_body_text ''acceleration'' = JNumber (Finite 0)
   \<and> \<not> StringNumericLiteral ''abc''
   \<and> post_sensor_data (sample_clock 0) sample_body_text empty_store =
       (Inr (Json 200 (Stored True ''Data stored successfully in memory'' sample_reading_text)),
        \<lparr>sensorData = [sample_reading_text]\<rparr>)
   \<and> strain sample_reading_text = NaN"
proof -
  have p: "get_property sample_body_text ''strain'' = JString ''abc''"
      "get_property sample_body_text ''vibration'' = JString ''12.5''"
      "get_property sample_body_text ''displacement'' = JBool True"
      "get_property sample_body_text ''acceleration'' = JNumber (Finite 0)"
    by (simp_all add: get_property_def sample_body_text_def)
  then have hyp: "\<forall>k \<in> set [''strain'', ''vibration'', ''displacement'', ''acceleration''].
             get_property sample_body_text k \<noteq> JUndefined \<and> get_property sample_body_text k \<noteq> JNull
             \<and> \<not> throws_in_ToString (get_property sample_body_text k)"
    by simp
  from presence_is_the_only_check [OF hyp, of "sample_clock 0" empty_store]
  obtain r where r: "post_sensor_data (sample_clock 0) sample_body_text empty_store =
               (Inr (Json 200 (Stored True ''Data stored successfully in memory'' r)),
                empty_store\<lparr>sensorData := take 50 (r # sensorData empty_store)\<rparr>)"
     and n: "\<forall>s. get_property sample_body_text ''strain'' = JString s \<longrightarrow>
                (strain r = NaN) = (\<not> StringNumericLiteral s)"
    by auto
  from n p(1) sample_not_literal have nan: "strain r = NaN"
    by blast
  from r have e: "r = sample_reading_text"
    by (simp add: sample_post_text)
  from r e have "post_sensor_data (sample_clock 0) sample_body_text empty_store =
       (Inr (Json 200 (Stored True ''Data stored successfully in memory'' sample_reading_text)),
        \<lparr>sensorData = [sample_reading_text]\<rparr>)"
    by (simp add: empty_store_def)
  with nan e p sample_not_literal show ?thesis
    by blast
qed

subsection \<open>The spreadsheet\<close>

lemma addRow_fold:
  "rows (foldl (\<lambda>ws d. addRow d ws) ws ds) =
     rows ws @ map (\<lambda>d. \<lparr>cells = map (\<lambda>c. reading_property d (key c)) (columns ws), bold = False\<rparr>) ds
   \<and> columns (foldl (\<lambda>ws d. addRow d ws) ws ds) = columns ws"
  by (induction ds arbitrary: ws) (simp_all add: addRow_def)

text \<open>
  C7. When the file can be written and sent, the download answers with the
  worksheet built from the store. Its columns are Timestamp, Strain, Vibration,
  Displacement, Acceleration, ID in this order; its first row holds these headers
  in bold, and one row follows for each reading of the store, in the order of the
  store (newest first), with the values of the reading under the six columns. A
  store of three readings gives four rows.
\<close>

theorem export_rows:
  "(fs_ok io \<and> send_ok io \<longrightarrow>
      get_download io st = (Download ''sensor_data.xlsx'' (build_worksheet st), st))
   \<and> map header (columns (build_worksheet st)) =
       [''Timestamp'', ''Strain'', ''Vibration'', ''Displacement'', ''Acceleration'', ''ID'']
   \<and> rows (build_worksheet st) =
       \<lparr>cells = map CellString
                  [''Timestamp'', ''Strain'', ''Vibration'', ''Displacement'', ''Acceleration'', ''ID''],
        bold = True\<rparr>
       # map (\<lambda>d. \<lparr>cells = [CellString (timestamp d), CellNumber (strain d),
                             CellNumber (vibration d), CellNumber (displacement d),
                             CellNumber (acceleration d), CellString (id_str d)],
                    bold = False\<rparr>) (sensorData st)
   \<and> length (rows (build_worksheet st)) = 1 + length (sensorData st)
   \<and> (length (sensorData st) = 3 \<longrightarrow> length (rows (build_worksheet st)) = 4)"
proof -
  have a: "fs_ok io \<and> send_ok io \<longrightarrow>
      get_download io st = (Download ''sensor_data.xlsx'' (build_worksheet st), st)"
    by (simp add: get_download_def Let_def)
  have b: "map header (columns (build_worksheet st)) =
       [''Timestamp'', ''Strain'', ''Vibration'', ''Displacement'', ''Acceleration'', ''ID'']"
    by (simp add: build_worksheet_def set_row1_bold_def addRow_fold set_columns_def
          sensor_columns_def)
  have c: "rows (build_worksheet st) =
       \<lparr>cells = map CellString
                  [''Timestamp'', ''Strain'', ''Vibration'', ''Displacement'', ''Acceleration'', ''ID''],
        bold = True\<rparr>
       # map (\<lambda>d. \<lparr>cells = [CellString (timestamp d), CellNumber (strain d),
                             CellNumber (vibration d), CellNumber (displacement d),
                             CellNumber (acceleration d), CellString (id_str d)],
                    bold = False\<rparr>) (sensorData st)"
    by (simp add: build_worksheet_def set_row1_bold_def addRow_fold set_columns_def
          sensor_columns_def reading_property_def addWorksheet_def)
  from a b c show ?thesis by simp
qed

theorem export_rows_witness:
  "fs_ok \<lparr>fs_ok = True, send_ok = True\<rparr> \<and> send_ok \<lparr>fs_ok = True, send_ok = True\<rparr>
   \<and> length (sensorData \<lparr>sensorData = [sample_reading 2, sample_reading 1, sample_reading 0]\<rparr>) = 3
   \<and> get_download \<lparr>fs_ok = True, send_ok = True\<rparr>
        \<lparr>sensorData = [sample_reading 2, sample_reading 1, sample_reading 0]\<rparr>
      = (Download ''sensor_data.xlsx''
           (build_worksheet \<lparr>sensorData = [sample_reading 2, sample_reading 1, sample_reading 0]\<rparr>),
         \<lparr>sensorData = [sample_reading 2, sample_reading 1, sample_reading 0]\<rparr>)
   \<and> length (rows (build_worksheet
                 \<lparr>sensorData = [sample_reading 2, sample_reading 1, sample_reading 0]\<rparr>)) = 4"
  using export_rows [of "\<lparr>fs_ok = True, send_ok = True\<rparr>"
          "\<lparr>sensorData = [sample_reading 2, sample_reading 1, sample_reading 0]\<rparr>"]
  by simp

subsection \<open>The limit of a query\<close>

lemma get_sensor_data_positive:
  "ToString_q q = Inr s \<Longrightarrow> parseInt s = Some n \<Longrightarrow> 0 < n \<Longrightarrow>
     get_sensor_data q st = (Inr (Json 200 (DataList True (take (nat n) (sensorData st)))), st)"
  by (simp add: get_sensor_data_def or_default_def slice_from_0_take)

lemma parseInt_10: "parseInt ''10'' = Some 10"
  by (simp add: parseInt_def is_white_space_def is_radix_digit_def digit_value_def
        digits_value_def Let_def)

lemma get_sensor_data_default:
  "ToString_q q = Inr s \<Longrightarrow> parseInt s = None \<or> parseInt s = Some 0 \<Longrightarrow>
     get_sensor_data q st = get_sensor_data (QString ''10'') st"
  by (auto simp add: get_sensor_data_def or_default_def parseInt_10 ToString_q_def)

lemma get_sensor_data_negative:
  "ToString_q q = Inr s \<Longrightarrow> parseInt s = Some n \<Longrightarrow> n < 0 \<Longrightarrow>
     get_sensor_data q st =
       (Inr (Json 200 (DataList True (take (length (sensorData st) - nat (- n)) (sensorData st)))),
        st)"
  by (auto simp add: get_sensor_data_def or_default_def slice_from_0_def Let_def max_def
        intro!: arg_cong [where f = "\<lambda>k. take k (sensorData st)"])

lemma get_sensor_data_throws:
  "get_sensor_data (QObject [(''toString'', QString ''1'')]) st = (Inl TypeError, st)"
  by (simp add: get_sensor_data_def ToString_q_def)

lemma parseInt_minus_1: "parseInt ''-1'' = Some (- 1)"
  by (simp add: parseInt_def is_white_space_def is_radix_digit_def digit_value_def
        digits_value_def Let_def)

text \<open>
  C3 asks that a limit that is not positive behaves as the default 10. The code
  falls back to 10 when \<^verbatim>\<open>parseInt\<close> gives \<^verbatim>\<open>NaN\<close> or zero, but passes a negative
  limit to \<^verbatim>\<open>slice\<close>, which then drops that many of the oldest readings: with
  three readings stored, \<^verbatim>\<open>limit=-1\<close> returns the two newest while \<^verbatim>\<open>limit=10\<close>
  returns all three.
\<close>

theorem negative_limit_drops_oldest:
  "fst (get_sensor_data (QString ''-1'')
          \<lparr>sensorData = [sample_reading 2, sample_reading 1, sample_reading 0]\<rparr>)
     = Inr (Json 200 (DataList True [sample_reading 2, sample_reading 1]))
   \<and> fst (get_sensor_data (QString ''10'')
          \<lparr>sensorData = [sample_reading 2, sample_reading 1, sample_reading 0]\<rparr>)
     = Inr (Json 200 (DataList True [sample_reading 2, sample_reading 1, sample_reading 0]))"
  by (simp add: get_sensor_data_def ToString_q_def or_default_def parseInt_10 parseInt_minus_1
        slice_from_0_def Let_def)

end
